theory Spec2Isabelle
  imports Main "HOL-Library.Word" "HOL-Library.Char_ord" "HOL-Library.List_Lexorder"
begin

section \<open>Shared types (shared/src/index.ts)\<close>

text \<open>
  JSON values as they travel between agent and server and as they are stored, serialised,
  in the \<open>payload\<close> and \<open>result\<close> columns. \<open>JSON.stringify\<close> followed by \<open>JSON.parse\<close>
  gives the value back, so a column holds the value itself. Numbers are integers here.
\<close>

datatype json =
    JNull
  | JBool bool
  | JNum int
  | JStr string
  | JArr "json list"
  | JObj "(string \<times> json) list"

text \<open>\<open>CommandStatus = 'PENDING' | 'RUNNING' | 'COMPLETED' | 'FAILED'\<close>.\<close>

datatype CommandStatus = PENDING | RUNNING | COMPLETED | FAILED

text \<open>The status argument of \<open>completeCommand\<close>: \<open>'COMPLETED' | 'FAILED'\<close>.\<close>

datatype TerminalStatus = T_COMPLETED | T_FAILED

fun status_of :: "TerminalStatus \<Rightarrow> CommandStatus" where
  "status_of T_COMPLETED = COMPLETED"
| "status_of T_FAILED = FAILED"

text \<open>
  Timestamps are \<open>new Date().toISOString()\<close> texts, which have a fixed width, so that the
  order SQLite puts on the text is the order of the instants. A timestamp is the number of
  milliseconds since the epoch.
\<close>

type_synonym timestamp = int

text \<open>The \<open>Command\<close> interface. The command type is the text of the \<open>type\<close> field.\<close>

record Command =
  cmd_id :: string
  cmd_type :: string
  payload :: json
  status :: CommandStatus
  result :: json
  agentId :: "string option"
  createdAt :: timestamp
  updatedAt :: timestamp
  startedAt :: "timestamp option"
  completedAt :: "timestamp option"

definition MAX_BODY_SIZE :: nat where
  "MAX_BODY_SIZE = 10240"

text \<open>An object's property, looked up by key (\<open>'url' in payload\<close>, \<open>payload.url\<close>).\<close>

fun property :: "json \<Rightarrow> string \<Rightarrow> json option" where
  "property (JObj fs) k = map_of fs k"
| "property _ k = None"

definition isDelayPayload :: "json \<Rightarrow> bool" where
  "isDelayPayload p = (case property p ''ms'' of Some (JNum n) \<Rightarrow> True | _ \<Rightarrow> False)"

definition isHttpGetJsonPayload :: "json \<Rightarrow> bool" where
  "isHttpGetJsonPayload p = (case property p ''url'' of Some (JStr u) \<Rightarrow> True | _ \<Rightarrow> False)"

section \<open>The database (server/src/db/database.ts)\<close>

text \<open>A row of table \<open>commands\<close> (interface \<open>CommandRow\<close>); a NULL column is \<open>None\<close>.\<close>

record CommandRow =
  row_id :: string
  row_type :: string
  row_payload :: json
  row_status :: CommandStatus
  row_result :: "json option"
  agent_id :: "string option"
  created_at :: timestamp
  updated_at :: timestamp
  started_at :: "timestamp option"
  completed_at :: "timestamp option"

text \<open>A row of table \<open>agent_heartbeats\<close>.\<close>

record HeartbeatRow =
  hb_agent_id :: string
  last_heartbeat :: timestamp
  current_command_id :: "string option"

text \<open>
  Both tables, each a list of rows in the order of their rowids, which is the order a scan
  of the table visits them in. \<open>.get()\<close> gives the first row of a result.
\<close>

record db =
  commands :: "CommandRow list"
  agent_heartbeats :: "HeartbeatRow list"

definition empty_db :: db where
  "empty_db = \<lparr>commands = [], agent_heartbeats = []\<rparr>"

text \<open>\<open>rowToCommand\<close>: \<open>result: row.result ? JSON.parse(row.result) : null\<close>.\<close>

definition rowToCommand :: "CommandRow \<Rightarrow> Command" where
  "rowToCommand row =
     \<lparr>cmd_id = row_id row, cmd_type = row_type row, payload = row_payload row,
      status = row_status row,
      result = (case row_result row of Some j \<Rightarrow> j | None \<Rightarrow> JNull),
      agentId = agent_id row, createdAt = created_at row, updatedAt = updated_at row,
      startedAt = started_at row, completedAt = completed_at row\<rparr>"

text \<open>
  The reset both \<open>recoverFromCrash\<close> and \<open>checkStaleCommands\<close> write:
  \<open>SET status = 'PENDING', agent_id = NULL, started_at = NULL, updated_at = ?\<close>.
\<close>

definition reset_row :: "timestamp \<Rightarrow> CommandRow \<Rightarrow> CommandRow" where
  "reset_row now r =
     r\<lparr>row_status := PENDING, agent_id := None, started_at := None, updated_at := now\<rparr>"

definition recoverFromCrash :: "timestamp \<Rightarrow> db \<Rightarrow> db" where
  "recoverFromCrash now d =
     (let runningCommands = filter (\<lambda>r. row_status r = RUNNING) (commands d) in
      if length runningCommands > 0
      then d\<lparr>commands :=
             map (\<lambda>r. if row_status r = RUNNING then reset_row now r else r) (commands d)\<rparr>
      else d)"

text \<open>
  \<open>createCommand\<close>: the INSERT throws when the id is already a primary key of the table,
  and then nothing is stored.
\<close>

datatype db_error = SQLITE_CONSTRAINT_PRIMARYKEY

definition createCommand ::
  "timestamp \<Rightarrow> string \<Rightarrow> string \<Rightarrow> json \<Rightarrow> db \<Rightarrow> db_error + (Command \<times> db)" where
  "createCommand now i ty p d =
     (if i \<in> set (map row_id (commands d)) then Inl SQLITE_CONSTRAINT_PRIMARYKEY
      else Inr
        (\<lparr>cmd_id = i, cmd_type = ty, payload = p, status = PENDING, result = JNull,
          agentId = None, createdAt = now, updatedAt = now, startedAt = None,
          completedAt = None\<rparr>,
         d\<lparr>commands := commands d @
              [\<lparr>row_id = i, row_type = ty, row_payload = p, row_status = PENDING,
                row_result = None, agent_id = None, created_at = now, updated_at = now,
                started_at = None, completed_at = None\<rparr>]\<rparr>))"

definition getCommand :: "db \<Rightarrow> string \<Rightarrow> Command option" where
  "getCommand d i = map_option rowToCommand (find (\<lambda>r. row_id r = i) (commands d))"

text \<open>
  \<open>updateHeartbeat\<close>: INSERT OR REPLACE deletes the agent's row and inserts the new one;
  \<open>commandId || null\<close> stores NULL for an absent and for an empty command id.
\<close>

definition updateHeartbeat :: "timestamp \<Rightarrow> string \<Rightarrow> string option \<Rightarrow> db \<Rightarrow> db" where
  "updateHeartbeat now agentId' commandId d =
     d\<lparr>agent_heartbeats :=
         filter (\<lambda>h. hb_agent_id h \<noteq> agentId') (agent_heartbeats d) @
         [\<lparr>hb_agent_id = agentId', last_heartbeat = now,
           current_command_id =
             (case commandId of None \<Rightarrow> None
              | Some c \<Rightarrow> if c = [] then None else Some c)\<rparr>]\<rparr>"

text \<open>
  \<open>SELECT * FROM commands WHERE status = 'PENDING' ORDER BY created_at ASC LIMIT 1\<close>:
  the query orders by \<open>created_at\<close> alone; among rows of equal \<open>created_at\<close> the first of
  the scan is the first of the result.
\<close>

fun first_by_created_at :: "CommandRow list \<Rightarrow> CommandRow option" where
  "first_by_created_at [] = None"
| "first_by_created_at (r # rs) =
     (case first_by_created_at rs of
        None \<Rightarrow> Some r
      | Some m \<Rightarrow> if created_at r \<le> created_at m then Some r else Some m)"

definition next_pending :: "db \<Rightarrow> CommandRow option" where
  "next_pending d = first_by_created_at (filter (\<lambda>r. row_status r = PENDING) (commands d))"

text \<open>
  \<open>fetchNextCommand\<close>. The clock is read twice: \<open>now\<close> in the transaction and once more in
  \<open>updateHeartbeat\<close>.
\<close>

definition fetchNextCommand ::
  "timestamp \<Rightarrow> timestamp \<Rightarrow> string \<Rightarrow> db \<Rightarrow> Command option \<times> db" where
  "fetchNextCommand now hb_now agentId' d =
     (case find (\<lambda>r. agent_id r = Some agentId' \<and> row_status r = RUNNING) (commands d) of
        Some existingCommand \<Rightarrow> (Some (rowToCommand existingCommand), d)
      | None \<Rightarrow>
         (case next_pending d of
            None \<Rightarrow> (None, d)
          | Some pendingCommand \<Rightarrow>
              (Some ((rowToCommand pendingCommand)
                 \<lparr>status := RUNNING, agentId := Some agentId',
                  updatedAt := now, startedAt := Some now\<rparr>),
               updateHeartbeat hb_now agentId' (Some (row_id pendingCommand))
                 (d\<lparr>commands :=
                    map (\<lambda>r. if row_id r = row_id pendingCommand
                              then r\<lparr>row_status := RUNNING, agent_id := Some agentId',
                                     started_at := Some now, updated_at := now\<rparr>
                              else r) (commands d)\<rparr>))))"

definition getUnfinishedCommand :: "db \<Rightarrow> string \<Rightarrow> Command option" where
  "getUnfinishedCommand d agentId' =
     map_option rowToCommand
       (find (\<lambda>r. agent_id r = Some agentId' \<and> row_status r = RUNNING) (commands d))"

text \<open>
  \<open>{ ...result, error }\<close>: the own properties of \<open>result\<close> with \<open>error\<close> set, in place
  when \<open>result\<close> has the property and at the end otherwise. An object spreads its
  properties, an array its elements under the keys \<open>0\<close>, \<open>1\<close>, \dots, a text its
  characters under those keys (a character of a JSON text is one code unit); \<open>null\<close>, a
  boolean and a number spread to no property.
\<close>

fun set_property :: "string \<Rightarrow> json \<Rightarrow> (string \<times> json) list \<Rightarrow> (string \<times> json) list" where
  "set_property k v [] = [(k, v)]"
| "set_property k v (p # ps) = (if fst p = k then (k, v) # ps else p # set_property k v ps)"

text \<open>The decimal text of an index.\<close>

fun index_key :: "nat \<Rightarrow> string" where
  "index_key n =
     (if n < 10 then [''0123456789'' ! n]
      else index_key (n div 10) @ [''0123456789'' ! (n mod 10)])"

definition indexed :: "json list \<Rightarrow> (string \<times> json) list" where
  "indexed xs = zip (map index_key [0..<length xs]) xs"

fun own_properties :: "json \<Rightarrow> (string \<times> json) list" where
  "own_properties (JObj fs) = fs"
| "own_properties (JArr xs) = indexed xs"
| "own_properties (JStr s) = indexed (map (\<lambda>c. JStr [c]) s)"
| "own_properties _ = []"

definition spread_error :: "json \<Rightarrow> string \<Rightarrow> json" where
  "spread_error res e = JObj (set_property ''error'' (JStr e) (own_properties res))"

text \<open>\<open>error ? { ...result, error } : result\<close>: an absent and an empty \<open>error\<close> are falsy.\<close>

definition finalResult :: "json \<Rightarrow> string option \<Rightarrow> json" where
  "finalResult res err =
     (case err of None \<Rightarrow> res | Some e \<Rightarrow> if e = [] then res else spread_error res e)"

text \<open>
  \<open>completeCommand\<close>. The UPDATE is \<open>WHERE id = ? AND agent_id = ?\<close>; \<open>changes\<close> counts the
  rows it matched.
\<close>

definition completeCommand ::
  "timestamp \<Rightarrow> timestamp \<Rightarrow> string \<Rightarrow> string \<Rightarrow> TerminalStatus \<Rightarrow> json \<Rightarrow> string option \<Rightarrow> db
     \<Rightarrow> bool \<times> db" where
  "completeCommand now hb_now commandId agentId' st res err d =
     (case find (\<lambda>r. row_id r = commandId \<and> agent_id r = Some agentId' \<and> row_status r = RUNNING)
             (commands d) of
        None \<Rightarrow> (False, d)
      | Some command \<Rightarrow>
          (let changes =
                 length (filter (\<lambda>r. row_id r = commandId \<and> agent_id r = Some agentId')
                           (commands d))
           in (changes > 0,
               updateHeartbeat hb_now agentId' None
                 (d\<lparr>commands :=
                    map (\<lambda>r. if row_id r = commandId \<and> agent_id r = Some agentId'
                              then r\<lparr>row_status := status_of st,
                                     row_result := Some (finalResult res err),
                                     completed_at := Some now, updated_at := now\<rparr>
                              else r) (commands d)\<rparr>))))"

text \<open>
  \<open>checkStaleCommands\<close>: one turn of the loop over the stale agents, on the commands, the
  heartbeats and \<open>resetCount\<close>.
\<close>

definition reclaim_agent ::
  "timestamp \<Rightarrow> string \<Rightarrow> db \<times> nat \<Rightarrow> db \<times> nat" where
  "reclaim_agent now a s =
     (case s of (d, resetCount) \<Rightarrow>
        (\<lparr>commands =
            map (\<lambda>r. if agent_id r = Some a \<and> row_status r = RUNNING then reset_row now r else r)
              (commands d),
          agent_heartbeats =
            map (\<lambda>h. if hb_agent_id h = a then h\<lparr>current_command_id := None\<rparr> else h)
              (agent_heartbeats d)\<rparr>,
         resetCount +
           length (filter (\<lambda>r. agent_id r = Some a \<and> row_status r = RUNNING) (commands d))))"

text \<open>
  \<open>new Date(v).toISOString()\<close> throws a RangeError when \<open>v\<close> is not a time value, that
  is, beyond 8.64e15 milliseconds from the epoch.
\<close>

datatype js_error = RangeError

definition valid_time :: "int \<Rightarrow> bool" where
  "valid_time v \<longleftrightarrow> - 8640000000000000 \<le> v \<and> v \<le> 8640000000000000"

text \<open>
  The year of an instant in the proleptic Gregorian calendar, year 0 before year 1: the
  days since the epoch, counted from 1 March of year 0; the era of 400 years and the day
  and the year in it; the day in that year, which starts in March; and one year more for
  January and February.
\<close>

definition year_of :: "timestamp \<Rightarrow> int" where
  "year_of t =
     (let z = t div 86400000 + 719468;
          era = z div 146097;
          doe = z - era * 146097;
          yoe = (doe - doe div 1460 + doe div 36524 - doe div 146096) div 365;
          doy = doe - (365 * yoe + yoe div 4 - yoe div 100);
          mp = (5 * doy + 2) div 153
      in yoe + era * 400 + (if mp < 10 then 0 else 1))"

text \<open>
  The form of the ISO text of an instant: four digits for the years 0000 to 9999, whose
  first is the instant -62167219200000 and whose last is 253402300799999, and a sign and
  six digits for the years before (\<open>-000001-\<close>\dots) and after (\<open>+010000-\<close>\dots).
\<close>

datatype iso_form = Signed_minus | Four_digits | Signed_plus

definition iso_form_of :: "timestamp \<Rightarrow> iso_form" where
  "iso_form_of t =
     (if t < - 62167219200000 then Signed_minus
      else if 253402300799999 < t then Signed_plus
      else Four_digits)"

text \<open>
  The order SQLite puts on two ISO texts, byte by byte. A \<open>+\<close> is below a \<open>-\<close>, which is
  below the digits. Texts of one form have one width and, with four digits or a \<open>+\<close>, the
  order of their instants; with a \<open>-\<close> the year is written without its sign, so that the
  later year comes first, and within a year the order is that of the instants.
\<close>

definition iso_less :: "timestamp \<Rightarrow> timestamp \<Rightarrow> bool" where
  "iso_less a b =
     (case iso_form_of a of
        Four_digits \<Rightarrow> iso_form_of b = Four_digits \<and> a < b
      | Signed_plus \<Rightarrow> iso_form_of b \<noteq> Signed_plus \<or> a < b
      | Signed_minus \<Rightarrow>
          (case iso_form_of b of
             Four_digits \<Rightarrow> True
           | Signed_plus \<Rightarrow> False
           | Signed_minus \<Rightarrow> year_of b < year_of a \<or> (year_of a = year_of b \<and> a < b)))"

text \<open>
  The transaction of \<open>checkStaleCommands\<close>, for the cutoff; the clock is read in it, for
  \<open>now\<close>, when there is a stale agent.
\<close>

definition stale_transaction :: "timestamp \<Rightarrow> timestamp \<Rightarrow> db \<Rightarrow> nat \<times> db" where
  "stale_transaction cutoff now d =
     (let staleAgents =
            filter (\<lambda>h. iso_less (last_heartbeat h) cutoff \<and> current_command_id h \<noteq> None)
              (agent_heartbeats d)
      in if length staleAgents = 0 then (0, d)
         else (let agentIds = map hb_agent_id staleAgents;
                   s = fold (reclaim_agent now) agentIds (d, 0)
               in (snd s, fst s)))"

text \<open>
  \<open>checkStaleCommands\<close>: the cutoff is \<open>new Date(Date.now() - timeoutMs).toISOString()\<close>,
  computed, or thrown on, before the transaction.
\<close>

definition checkStaleCommands ::
  "timestamp \<Rightarrow> timestamp \<Rightarrow> int \<Rightarrow> db \<Rightarrow> js_error + nat \<times> db" where
  "checkStaleCommands date_now now timeoutMs d =
     (if \<not> valid_time (date_now - timeoutMs) then Inl RangeError
      else Inr (stale_transaction (date_now - timeoutMs) now d))"

subsection \<open>The operations as one step function\<close>

text \<open>
  One call of a method of \<open>CommandDatabase\<close>, with the readings of the clock it makes, and
  the database after it. A \<open>createCommand\<close> and a \<open>checkStaleCommands\<close> that throw leave
  the database as it was.
\<close>

datatype db_op =
    CreateCommand timestamp string string json
  | FetchNextCommand timestamp timestamp string
  | CompleteCommand timestamp timestamp string string TerminalStatus json "string option"
  | UpdateHeartbeat timestamp string "string option"
  | CheckStaleCommands timestamp timestamp int
  | RecoverFromCrash timestamp

fun apply_op :: "db_op \<Rightarrow> db \<Rightarrow> db" where
  "apply_op (CreateCommand now i ty p) d =
     (case createCommand now i ty p d of Inl e \<Rightarrow> d | Inr cd \<Rightarrow> snd cd)"
| "apply_op (FetchNextCommand now hb_now a) d = snd (fetchNextCommand now hb_now a d)"
| "apply_op (CompleteCommand now hb_now c a st res err) d =
     snd (completeCommand now hb_now c a st res err d)"
| "apply_op (UpdateHeartbeat now a c) d = updateHeartbeat now a c d"
| "apply_op (CheckStaleCommands date_now now timeoutMs) d =
     (case checkStaleCommands date_now now timeoutMs d of Inl e \<Rightarrow> d | Inr nd \<Rightarrow> snd nd)"
| "apply_op (RecoverFromCrash now) d = recoverFromCrash now d"

definition apply_ops :: "db_op list \<Rightarrow> db \<Rightarrow> db" where
  "apply_ops ops d = fold apply_op ops d"

subsection \<open>The invariants of the data model\<close>



definition terminal :: "CommandRow \<Rightarrow> bool" where
  "terminal r \<longleftrightarrow> row_status r = COMPLETED \<or> row_status r = FAILED"


definition heartbeat_of :: "db \<Rightarrow> string \<Rightarrow> HeartbeatRow option" where
  "heartbeat_of d a = find (\<lambda>h. hb_agent_id h = a) (agent_heartbeats d)"




section \<open>The agent routes (server/src/routes/agent.ts)\<close>

text \<open>
  A request body as it arrives: a field may be absent. \<open>!body.agentId\<close> holds of an absent
  and of an empty text.
\<close>

definition falsy :: "string option \<Rightarrow> bool" where
  "falsy x \<longleftrightarrow> (case x of None \<Rightarrow> True | Some s \<Rightarrow> s = [])"

record ReportResultRequest =
  req_agentId :: "string option"
  req_commandId :: "string option"
  req_status :: "string option"
  req_result :: json
  req_error :: "string option"


datatype response_body =
    ErrorBody string
  | Acknowledged bool "string option"

record response =
  code :: nat
  body :: response_body

text \<open>\<open>router.post('/result')\<close>; no call of the handler's \<open>try\<close> block throws.\<close>

definition resultRoute ::
  "timestamp \<Rightarrow> timestamp \<Rightarrow> ReportResultRequest \<Rightarrow> db \<Rightarrow> response \<times> db" where
  "resultRoute now hb_now b d =
     (if falsy (req_agentId b) \<or> falsy (req_commandId b) \<or> falsy (req_status b)
      then (\<lparr>code = 400, body = ErrorBody ''Missing required fields''\<rparr>, d)
      else if req_status b \<noteq> Some ''COMPLETED'' \<and> req_status b \<noteq> Some ''FAILED''
      then (\<lparr>code = 400, body = ErrorBody ''Status must be COMPLETED or FAILED''\<rparr>, d)
      else
       (let st = (if req_status b = Some ''COMPLETED'' then T_COMPLETED else T_FAILED);
            sd = completeCommand now hb_now (the (req_commandId b)) (the (req_agentId b)) st
                   (req_result b) (req_error b) d
        in if \<not> fst sd
           then (case getCommand (snd sd) (the (req_commandId b)) of
                   None \<Rightarrow>
                     (\<lparr>code = 409, body = ErrorBody
                        ''Cannot complete command - not assigned to this agent or not in RUNNING state''\<rparr>,
                      snd sd)
                 | Some command \<Rightarrow>
                     if status command = COMPLETED \<or> status command = FAILED
                     then (\<lparr>code = 200, body = Acknowledged True
                              (Some ''Command already completed (idempotent)'')\<rparr>, snd sd)
                     else (\<lparr>code = 409, body = ErrorBody
                        ''Cannot complete command - not assigned to this agent or not in RUNNING state''\<rparr>,
                      snd sd))
           else (\<lparr>code = 200, body = Acknowledged True None\<rparr>, snd sd)))"


section \<open>The executors (agent/src/executor/commands.ts)\<close>

text \<open>
  A JavaScript text is a sequence of UTF-16 code units. \<open>text.slice(0, n)\<close> takes code
  units; \<open>Buffer.byteLength(text, 'utf8')\<close> counts the bytes of the UTF-8 encoding: one
  for a unit below \<open>0x80\<close>, two below \<open>0x800\<close>, four for a surrogate pair, three for every
  other unit (a lone surrogate is encoded as U+FFFD).
\<close>

type_synonym jsstring = "16 word list"

definition js :: "string \<Rightarrow> jsstring" where
  "js s = map (\<lambda>c. of_char c) s"

definition unit_bytes :: "16 word \<Rightarrow> nat" where
  "unit_bytes u = (if u < 0x80 then 1 else if u < 0x800 then 2 else 3)"

definition surrogate_pair :: "16 word \<Rightarrow> 16 word \<Rightarrow> bool" where
  "surrogate_pair u v \<longleftrightarrow> 0xD800 \<le> u \<and> u \<le> 0xDBFF \<and> 0xDC00 \<le> v \<and> v \<le> 0xDFFF"

fun byteLength :: "jsstring \<Rightarrow> nat" where
  "byteLength [] = 0"
| "byteLength [u] = unit_bytes u"
| "byteLength (u # v # vs) =
     (if surrogate_pair u v then 4 + byteLength vs else unit_bytes u + byteLength (v # vs))"

text \<open>A text of code units below \<open>0x80\<close>: every character is one byte.\<close>

definition single_byte :: "jsstring \<Rightarrow> bool" where
  "single_byte t \<longleftrightarrow> list_all (\<lambda>u. u < 0x80) t"

text \<open>\<open>contentType.includes('application/json')\<close>.\<close>

fun starts_with :: "'a list \<Rightarrow> 'a list \<Rightarrow> bool" where
  "starts_with s [] = True"
| "starts_with [] (p # ps) = False"
| "starts_with (c # cs) (p # ps) = (c = p \<and> starts_with cs ps)"

fun includes_of :: "'a list \<Rightarrow> 'a list \<Rightarrow> bool" where
  "includes_of [] p = (p = [])"
| "includes_of (c # cs) p = (starts_with (c # cs) p \<or> includes_of cs p)"

datatype http_body =
    BodyNull
  | BodyText jsstring
  | BodyParsed json

record HttpGetJsonResult =
  res_status :: int
  res_body :: http_body
  truncated :: bool
  bytesReturned :: nat
  res_error :: "string option"

record DelayResult =
  ok :: bool
  tookMs :: int

datatype CommandResult =
    Delay DelayResult
  | HttpGetJson HttpGetJsonResult
  | Null

text \<open>
  What \<open>fetch\<close> and \<open>response.text()\<close> do is the environment's: the request is rejected
  with a message (a transport failure, or the abort the 30-second timer sends), or the
  response arrives with a status and a \<open>content-type\<close> header and reading its body is
  rejected with a message, or the body is read.
\<close>

datatype fetch_outcome =
    FetchRejected string
  | BodyRejected int "string option" string
  | Fetched int "string option" jsstring

text \<open>How a call on the agent's side ends: it returns, it throws, or the process exits.\<close>

datatype 'a outcome =
    Returns 'a
  | Throws string
  | Exits

text \<open>
  The environment of the executors: what \<open>fetch\<close> gives for a URL, what \<open>JSON.parse\<close> gives
  for a text (\<open>None\<close> when it throws), and how the DELAY executor, which sleeps on the timer
  and reads the clock, ends for a number of milliseconds.
\<close>

record executor_env =
  env_fetch :: "string \<Rightarrow> fetch_outcome"
  env_parse :: "jsstring \<Rightarrow> json option"
  env_delay :: "int \<Rightarrow> DelayResult outcome"

text \<open>The message of the exception, when the request or the reading of the body fails.\<close>

fun failure_message :: "fetch_outcome \<Rightarrow> string option" where
  "failure_message (FetchRejected m) = Some m"
| "failure_message (BodyRejected st ct m) = Some m"
| "failure_message (Fetched st ct t) = None"

text \<open>\<open>response.headers.get('content-type') || ''\<close>.\<close>

definition content_type_of :: "string option \<Rightarrow> string" where
  "content_type_of ct = (case ct of None \<Rightarrow> [] | Some c \<Rightarrow> c)"

definition failed_request :: "string \<Rightarrow> HttpGetJsonResult" where
  "failed_request errorMessage =
     \<lparr>res_status = 0, res_body = BodyNull, truncated = False, bytesReturned = 0,
      res_error = Some errorMessage\<rparr>"

text \<open>The body of a response, from its text: parsed when the content type says JSON and
  the text parses, and otherwise the text, with the marker when it was cut.\<close>

definition read_body ::
  "(jsstring \<Rightarrow> json option) \<Rightarrow> string \<Rightarrow> jsstring \<Rightarrow> jsstring \<Rightarrow> http_body" where
  "read_body parse contentType t fallback =
     (if includes_of contentType ''application/json''
      then (case parse t of Some j \<Rightarrow> BodyParsed j | None \<Rightarrow> BodyText fallback)
      else BodyText fallback)"

definition executeHttpGetJson :: "executor_env \<Rightarrow> string \<Rightarrow> HttpGetJsonResult" where
  "executeHttpGetJson env url =
     (case env_fetch env url of
        FetchRejected errorMessage \<Rightarrow> failed_request errorMessage
      | BodyRejected st ct errorMessage \<Rightarrow> failed_request errorMessage
      | Fetched st ct text \<Rightarrow>
          (let contentType = content_type_of ct;
               n = byteLength text
           in if n > MAX_BODY_SIZE
              then (let truncatedText = take MAX_BODY_SIZE text
                    in \<lparr>res_status = st,
                        res_body = read_body (env_parse env) contentType truncatedText
                                     (truncatedText @ js ''... [truncated]''),
                        truncated = True, bytesReturned = n, res_error = None\<rparr>)
              else \<lparr>res_status = st,
                    res_body = read_body (env_parse env) contentType text text,
                    truncated = False, bytesReturned = n, res_error = None\<rparr>))"

text \<open>\<open>executeCommand\<close>: the switch on the command's type, each case behind its type guard.\<close>

definition payload_url :: "json \<Rightarrow> string" where
  "payload_url p = (case property p ''url'' of Some (JStr u) \<Rightarrow> u | _ \<Rightarrow> [])"

definition payload_ms :: "json \<Rightarrow> int" where
  "payload_ms p = (case property p ''ms'' of Some (JNum n) \<Rightarrow> n | _ \<Rightarrow> 0)"

definition executeCommand :: "executor_env \<Rightarrow> Command \<Rightarrow> CommandResult outcome" where
  "executeCommand env command =
     (if cmd_type command = ''DELAY''
      then (if \<not> isDelayPayload (payload command) then Throws ''Invalid DELAY payload''
            else (case env_delay env (payload_ms (payload command)) of
                    Returns r \<Rightarrow> Returns (Delay r)
                  | Throws m \<Rightarrow> Throws m
                  | Exits \<Rightarrow> Exits))
      else if cmd_type command = ''HTTP_GET_JSON''
      then (if \<not> isHttpGetJsonPayload (payload command)
            then Throws ''Invalid HTTP_GET_JSON payload''
            else Returns (HttpGetJson (executeHttpGetJson env (payload_url (payload command)))))
      else Throws (''Unknown command type: '' @ cmd_type command))"

section \<open>The agent (agent/src/index.ts)\<close>

text \<open>The report \<open>reportResult\<close> posts to \<open>/agent/result\<close>.\<close>

record Report =
  rep_agentId :: string
  rep_commandId :: string
  rep_status :: TerminalStatus
  rep_result :: CommandResult
  rep_error :: "string option"

text \<open>
  \<open>Agent.executeAndReport\<close>: the report it posts, or \<open>None\<close> when the process exits before
  it posts one. \<open>crash_before\<close> and \<open>crash_after\<close> say whether \<open>maybeSimulateCrash\<close> exits
  the process before the execution and after it (\<open>randomFailures\<close> set and the draw below
  0.2); during a DELAY the progress callback may exit it, which is the \<open>Exits\<close> of the
  executor. \<open>reportResult\<close> catches what it throws, so the \<open>catch\<close> of \<open>executeAndReport\<close>
  sees the executor's exceptions only.
\<close>

definition executeAndReport ::
  "string \<Rightarrow> executor_env \<Rightarrow> bool \<Rightarrow> bool \<Rightarrow> Command \<Rightarrow> Report option" where
  "executeAndReport agent env crash_before crash_after command =
     (if crash_before then None
      else (case executeCommand env command of
              Exits \<Rightarrow> None
            | Returns r \<Rightarrow>
                if crash_after then None
                else Some \<lparr>rep_agentId = agent, rep_commandId = cmd_id command,
                           rep_status = T_COMPLETED, rep_result = r, rep_error = None\<rparr>
            | Throws errorMessage \<Rightarrow>
                Some \<lparr>rep_agentId = agent, rep_commandId = cmd_id command,
                      rep_status = T_FAILED, rep_result = Null,
                      rep_error = Some errorMessage\<rparr>))"

section \<open>Notions the properties are stated with\<close>

subsection \<open>What the stale check reclaims\<close>

text \<open>
  The agents the first query of \<open>checkStaleCommands\<close> selects: those with a heartbeat row
  whose text is below the cutoff's and that names a command; and the rows its UPDATE then
  resets.
\<close>

definition stale_agent :: "db \<Rightarrow> timestamp \<Rightarrow> string \<Rightarrow> bool" where
  "stale_agent d cutoff a \<longleftrightarrow>
     list_ex (\<lambda>h. hb_agent_id h = a \<and> iso_less (last_heartbeat h) cutoff \<and>
                   current_command_id h \<noteq> None)
       (agent_heartbeats d)"

definition reclaimed :: "db \<Rightarrow> timestamp \<Rightarrow> CommandRow \<Rightarrow> bool" where
  "reclaimed d cutoff r \<longleftrightarrow>
     row_status r = RUNNING \<and>
     (case agent_id r of None \<Rightarrow> False | Some a \<Rightarrow> stale_agent d cutoff a)"



text \<open>
  The specification's words for a stale command: ``\<open>status = Running\<close> and
  \<open>AgentLiveness[owner].last_heartbeat < now - stale_timeout\<close>''.
\<close>

definition stale_per_spec :: "db \<Rightarrow> timestamp \<Rightarrow> CommandRow \<Rightarrow> bool" where
  "stale_per_spec d cutoff r \<longleftrightarrow>
     row_status r = RUNNING \<and>
     (case agent_id r of
        None \<Rightarrow> False
      | Some a \<Rightarrow>
          (case heartbeat_of d a of None \<Rightarrow> False | Some h \<Rightarrow> last_heartbeat h < cutoff))"

text \<open>
  The command is RUNNING and the heartbeat record of its owner is one the first query of
  \<open>checkStaleCommands\<close> selects.
\<close>

definition owner_selected :: "db \<Rightarrow> timestamp \<Rightarrow> CommandRow \<Rightarrow> bool" where
  "owner_selected d cutoff r \<longleftrightarrow>
     row_status r = RUNNING \<and>
     (case agent_id r of
        None \<Rightarrow> False
      | Some a \<Rightarrow>
          (case heartbeat_of d a of
             None \<Rightarrow> False
           | Some h \<Rightarrow> iso_less (last_heartbeat h) cutoff \<and> current_command_id h \<noteq> None))"

subsection \<open>The selection of the next command, in the specification's words\<close>

text \<open>
  ``The Pending command with smallest \<open>created_at\<close> (ties broken by id)'': the command
  that precedes every pending command in the order by \<open>created_at\<close> and then by id.
\<close>

definition spec_precedes :: "CommandRow \<Rightarrow> CommandRow \<Rightarrow> bool" where
  "spec_precedes p q \<longleftrightarrow>
     created_at p < created_at q \<or> (created_at p = created_at q \<and> row_id p \<le> row_id q)"

definition spec_next_pending :: "db \<Rightarrow> CommandRow \<Rightarrow> bool" where
  "spec_next_pending d p \<longleftrightarrow>
     p \<in> set (commands d) \<and> row_status p = PENDING \<and>
     list_all (\<lambda>q. row_status q = PENDING \<longrightarrow> spec_precedes p q) (commands d)"

subsection \<open>Reports to the result route\<close>

text \<open>
  A report that passes the two checks of the handler, and the status it asks for; and the
  test the handler makes when \<open>completeCommand\<close> has returned false.
\<close>

definition valid_report :: "ReportResultRequest \<Rightarrow> bool" where
  "valid_report b \<longleftrightarrow>
     \<not> falsy (req_agentId b) \<and> \<not> falsy (req_commandId b) \<and>
     (req_status b = Some ''COMPLETED'' \<or> req_status b = Some ''FAILED'')"

definition report_status :: "ReportResultRequest \<Rightarrow> TerminalStatus" where
  "report_status b = (if req_status b = Some ''COMPLETED'' then T_COMPLETED else T_FAILED)"

definition already_terminal :: "db \<Rightarrow> string \<Rightarrow> bool" where
  "already_terminal d commandId \<longleftrightarrow>
     (case getCommand d commandId of
        None \<Rightarrow> False
      | Some command \<Rightarrow> status command = COMPLETED \<or> status command = FAILED)"

text \<open>
  The specification's words for the replay the handler acknowledges: ``the command is
  already in the requested terminal state with \<open>owner\<close> formerly equal to the reporting
  agent''.
\<close>

definition replay_of_own_report :: "db \<Rightarrow> string \<Rightarrow> string \<Rightarrow> TerminalStatus \<Rightarrow> bool" where
  "replay_of_own_report d commandId agentId' st \<longleftrightarrow>
     (case getCommand d commandId of
        None \<Rightarrow> False
      | Some command \<Rightarrow> status command = status_of st \<and> agentId command = Some agentId')"

section \<open>Example states\<close>

text \<open>One command, created at 5 and fetched by \<open>agent-1\<close> at 10.\<close>

definition row_running :: CommandRow where
  "row_running =
     \<lparr>row_id = ''c1'', row_type = ''DELAY'', row_payload = JObj [(''ms'', JNum 100)],
      row_status = RUNNING, row_result = None, agent_id = Some ''agent-1'',
      created_at = 5, updated_at = 10, started_at = Some 10, completed_at = None\<rparr>"

definition db_running :: db where
  "db_running =
     \<lparr>commands = [row_running],
      agent_heartbeats =
        [\<lparr>hb_agent_id = ''agent-1'', last_heartbeat = 11, current_command_id = Some ''c1''\<rparr>]\<rparr>"

text \<open>The same command, completed by \<open>agent-1\<close> at 30.\<close>

definition row_completed :: CommandRow where
  "row_completed =
     \<lparr>row_id = ''c1'', row_type = ''DELAY'', row_payload = JObj [(''ms'', JNum 100)],
      row_status = COMPLETED,
      row_result = Some (JObj [(''ok'', JBool True), (''tookMs'', JNum 100)]),
      agent_id = Some ''agent-1'', created_at = 5, updated_at = 30, started_at = Some 10,
      completed_at = Some 30\<rparr>"

definition db_completed :: db where
  "db_completed =
     \<lparr>commands = [row_completed],
      agent_heartbeats =
        [\<lparr>hb_agent_id = ''agent-1'', last_heartbeat = 31, current_command_id = None\<rparr>]\<rparr>"

text \<open>Two pending commands created in the same millisecond, \<open>b\<close> stored before \<open>a\<close>.\<close>

definition row_b :: CommandRow where
  "row_b = \<lparr>row_id = ''b'', row_type = ''DELAY'', row_payload = JObj [(''ms'', JNum 100)],
      row_status = PENDING, row_result = None, agent_id = None,
      created_at = 5, updated_at = 5, started_at = None, completed_at = None\<rparr>"

definition row_a :: CommandRow where
  "row_a = \<lparr>row_id = ''a'', row_type = ''DELAY'', row_payload = JObj [(''ms'', JNum 100)],
      row_status = PENDING, row_result = None, agent_id = None,
      created_at = 5, updated_at = 5, started_at = None, completed_at = None\<rparr>"

definition db_tied :: db where
  "db_tied = \<lparr>commands = [row_b, row_a], agent_heartbeats = []\<rparr>"

text \<open>A report of \<open>agent-2\<close> that \<open>c1\<close> failed.\<close>

definition report_late :: ReportResultRequest where
  "report_late = \<lparr>req_agentId = Some ''agent-2'', req_commandId = Some ''c1'',
     req_status = Some ''FAILED'', req_result = JNull, req_error = Some ''late''\<rparr>"

text \<open>
  \<open>agent-1\<close> runs \<open>c1\<close>, and its last heartbeat, at 12, carried no command id.
\<close>

definition db_lagging :: db where
  "db_lagging =
     \<lparr>commands = [row_running],
      agent_heartbeats =
        [\<lparr>hb_agent_id = ''agent-1'', last_heartbeat = 12, current_command_id = None\<rparr>]\<rparr>"

text \<open>
  An HTTP_GET_JSON command; an environment in which every request fails; and one in which
  the response is 10241 letters \<open>a\<close> of type \<open>text/plain\<close>.
\<close>

definition command_http :: Command where
  "command_http =
     \<lparr>cmd_id = ''c2'', cmd_type = ''HTTP_GET_JSON'',
      payload = JObj [(''url'', JStr ''http://example.test/big'')], status = RUNNING,
      result = JNull, agentId = Some ''agent-1'', createdAt = 5, updatedAt = 10,
      startedAt = Some 10, completedAt = None\<rparr>"

definition env_unreachable :: executor_env where
  "env_unreachable =
     \<lparr>env_fetch = (\<lambda>url. FetchRejected ''fetch failed''), env_parse = (\<lambda>t. None),
      env_delay = (\<lambda>ms. Returns \<lparr>ok = True, tookMs = ms\<rparr>)\<rparr>"

definition big_text :: jsstring where
  "big_text = replicate 10241 0x61"

definition env_big :: executor_env where
  "env_big =
     \<lparr>env_fetch = (\<lambda>url. Fetched 200 (Some ''text/plain'') big_text), env_parse = (\<lambda>t. None),
      env_delay = (\<lambda>ms. Returns \<lparr>ok = True, tookMs = ms\<rparr>)\<rparr>"

text \<open>A response of 6000 euro signs (U+20AC, three bytes each) of type \<open>text/plain\<close>.\<close>

definition euro_text :: jsstring where
  "euro_text = replicate 6000 0x20AC"

definition env_euro :: executor_env where
  "env_euro =
     \<lparr>env_fetch = (\<lambda>url. Fetched 200 (Some ''text/plain'') euro_text), env_parse = (\<lambda>t. None),
      env_delay = (\<lambda>ms. Returns \<lparr>ok = True, tookMs = ms\<rparr>)\<rparr>"

section \<open>Properties\<close>

subsection \<open>Looking a row up by its primary key\<close>

lemma find_by_id_distinct:
  "distinct (map row_id rs) \<Longrightarrow>
   find (\<lambda>r. row_id r = c \<and> P r) rs =
     (case find (\<lambda>r. row_id r = c) rs of None \<Rightarrow> None | Some r \<Rightarrow> if P r then Some r else None)"
proof (induction rs)
  case Nil
  then show ?case by simp
next
  case (Cons r rs)
  show ?case
  proof (cases "row_id r = c")
    case True
    from Cons.prems have "row_id r \<notin> row_id ` set rs" by simp
    with True have "\<forall>x\<in>set rs. row_id x \<noteq> c" by (metis imageI)
    then have "find (\<lambda>r. row_id r = c \<and> P r) rs = None"
      by (auto simp: find_None_iff)
    with True show ?thesis by simp
  next
    case False
    with Cons show ?thesis by simp
  qed
qed

subsection \<open>The example states are states the server reaches\<close>

lemma db_running_reachable:
  "db_running =
     apply_ops [CreateCommand 5 ''c1'' ''DELAY'' (JObj [(''ms'', JNum 100)]),
                FetchNextCommand 10 11 ''agent-1''] empty_db"
  by (simp add: db_running_def row_running_def apply_ops_def empty_db_def createCommand_def
      fetchNextCommand_def next_pending_def updateHeartbeat_def)

lemma db_completed_reachable:
  "db_completed =
     apply_op (CompleteCommand 30 31 ''c1'' ''agent-1'' T_COMPLETED
                 (JObj [(''ok'', JBool True), (''tookMs'', JNum 100)]) None) db_running"
  by (simp add: db_completed_def row_completed_def db_running_def row_running_def
      completeCommand_def updateHeartbeat_def finalResult_def)

lemma db_tied_reachable:
  "db_tied =
     apply_ops [CreateCommand 5 ''b'' ''DELAY'' (JObj [(''ms'', JNum 100)]),
                CreateCommand 5 ''a'' ''DELAY'' (JObj [(''ms'', JNum 100)])] empty_db"
  by (simp add: db_tied_def row_a_def row_b_def apply_ops_def empty_db_def createCommand_def)

lemma db_lagging_reachable:
  "db_lagging = apply_op (UpdateHeartbeat 12 ''agent-1'' None) db_running"
  by (simp add: db_lagging_def db_running_def updateHeartbeat_def)

subsection \<open>The effect of each operation on the two tables\<close>

lemma reset_row_simps [simp]:
  "row_status (reset_row now r) = PENDING"
  "agent_id (reset_row now r) = None"
  "started_at (reset_row now r) = None"
  "row_id (reset_row now r) = row_id r"
  by (simp_all add: reset_row_def)

lemma commands_updateHeartbeat [simp]: "commands (updateHeartbeat now a c d) = commands d"
  by (simp add: updateHeartbeat_def)

lemma commands_recoverFromCrash:
  "commands (recoverFromCrash now d) =
     map (\<lambda>r. if row_status r = RUNNING then reset_row now r else r) (commands d)"
proof (cases "filter (\<lambda>r. row_status r = RUNNING) (commands d) = []")
  case True
  then have "\<forall>r\<in>set (commands d). row_status r \<noteq> RUNNING"
    by (simp add: filter_empty_conv)
  then have "map (\<lambda>r. if row_status r = RUNNING then reset_row now r else r) (commands d)
               = commands d"
    by (simp add: map_idI)
  with True show ?thesis by (simp add: recoverFromCrash_def)
next
  case False
  then show ?thesis by (simp add: recoverFromCrash_def)
qed

lemma reclaim_step:
  "(if row_status (if agent_id r = Some a \<and> row_status r = RUNNING then reset_row now r else r)
        = RUNNING \<and>
       agent_id (if agent_id r = Some a \<and> row_status r = RUNNING then reset_row now r else r)
        \<in> Some ` set as
    then reset_row now (if agent_id r = Some a \<and> row_status r = RUNNING then reset_row now r else r)
    else (if agent_id r = Some a \<and> row_status r = RUNNING then reset_row now r else r))
   = (if row_status r = RUNNING \<and> agent_id r \<in> Some ` set (a # as) then reset_row now r else r)"
  by auto

lemma fold_reclaim_commands:
  "commands (fst (fold (reclaim_agent now) as (d, n))) =
     map (\<lambda>r. if row_status r = RUNNING \<and> agent_id r \<in> Some ` set as then reset_row now r else r)
       (commands d)"
proof (induction as arbitrary: d n)
  case Nil
  then show ?case by (simp add: map_idI)
next
  case (Cons a as)
  obtain d1 n1 where s: "reclaim_agent now a (d, n) = (d1, n1)"
    by (cases "reclaim_agent now a (d, n)")
  then have c1: "commands d1 =
      map (\<lambda>r. if agent_id r = Some a \<and> row_status r = RUNNING then reset_row now r else r)
        (commands d)"
    by (auto simp: reclaim_agent_def)
  have step: "fold (reclaim_agent now) (a # as) (d, n) = fold (reclaim_agent now) as (d1, n1)"
    by (simp add: s)
  have "commands (fst (fold (reclaim_agent now) as (d1, n1))) =
      map (\<lambda>r. if row_status r = RUNNING \<and> agent_id r \<in> Some ` set as then reset_row now r else r)
        (commands d1)"
    by (rule Cons.IH)
  also have "\<dots> =
      map (\<lambda>r. if row_status r = RUNNING \<and> agent_id r \<in> Some ` set (a # as)
                then reset_row now r else r) (commands d)"
    unfolding c1 by (simp only: map_map comp_def reclaim_step)
  finally show ?case by (simp only: step)
qed

lemma fold_reclaim_heartbeats:
  "agent_heartbeats (fst (fold (reclaim_agent now) as (d, n))) =
     map (\<lambda>h. if hb_agent_id h \<in> set as then h\<lparr>current_command_id := None\<rparr> else h)
       (agent_heartbeats d)"
proof (induction as arbitrary: d n)
  case Nil
  then show ?case by (simp add: map_idI)
next
  case (Cons a as)
  have hb: "\<And>h. (if hb_agent_id (if hb_agent_id h = a then h\<lparr>current_command_id := None\<rparr> else h) \<in> set as
             then (if hb_agent_id h = a then h\<lparr>current_command_id := None\<rparr> else h)
                    \<lparr>current_command_id := None\<rparr>
             else (if hb_agent_id h = a then h\<lparr>current_command_id := None\<rparr> else h))
          = (if hb_agent_id h \<in> set (a # as) then h\<lparr>current_command_id := None\<rparr> else h)"
    by auto
  obtain d1 n1 where s: "reclaim_agent now a (d, n) = (d1, n1)"
    by (cases "reclaim_agent now a (d, n)")
  then have c1: "agent_heartbeats d1 =
      map (\<lambda>h. if hb_agent_id h = a then h\<lparr>current_command_id := None\<rparr> else h)
        (agent_heartbeats d)"
    by (auto simp: reclaim_agent_def)
  have step: "fold (reclaim_agent now) (a # as) (d, n) = fold (reclaim_agent now) as (d1, n1)"
    by (simp add: s)
  have "agent_heartbeats (fst (fold (reclaim_agent now) as (d1, n1))) =
      map (\<lambda>h. if hb_agent_id h \<in> set as then h\<lparr>current_command_id := None\<rparr> else h)
        (agent_heartbeats d1)"
    by (rule Cons.IH)
  also have "\<dots> =
      map (\<lambda>h. if hb_agent_id h \<in> set (a # as) then h\<lparr>current_command_id := None\<rparr> else h)
        (agent_heartbeats d)"
    unfolding c1 by (simp only: map_map comp_def hb)
  finally show ?case by (simp only: step)
qed

lemma count_reclaim_step:
  "length (filter (\<lambda>r. agent_id r = Some a \<and> row_status r = RUNNING) rs) +
   length (filter (\<lambda>r. row_status r = RUNNING \<and> agent_id r \<in> Some ` set as)
            (map (\<lambda>r. if agent_id r = Some a \<and> row_status r = RUNNING then reset_row now r else r) rs))
   = length (filter (\<lambda>r. row_status r = RUNNING \<and> agent_id r \<in> Some ` set (a # as)) rs)"
  by (induction rs) auto

lemma fold_reclaim_count:
  "snd (fold (reclaim_agent now) as (d, n)) =
     n + length (filter (\<lambda>r. row_status r = RUNNING \<and> agent_id r \<in> Some ` set as) (commands d))"
proof (induction as arbitrary: d n)
  case Nil
  then show ?case by simp
next
  case (Cons a as)
  obtain d1 n1 where s: "reclaim_agent now a (d, n) = (d1, n1)"
    by (cases "reclaim_agent now a (d, n)")
  then have c1: "commands d1 =
      map (\<lambda>r. if agent_id r = Some a \<and> row_status r = RUNNING then reset_row now r else r)
        (commands d)"
    and n1: "n1 = n + length (filter (\<lambda>r. agent_id r = Some a \<and> row_status r = RUNNING) (commands d))"
    by (auto simp: reclaim_agent_def)
  have step: "fold (reclaim_agent now) (a # as) (d, n) = fold (reclaim_agent now) as (d1, n1)"
    by (simp add: s)
  have "snd (fold (reclaim_agent now) as (d1, n1)) =
      n1 + length (filter (\<lambda>r. row_status r = RUNNING \<and> agent_id r \<in> Some ` set as) (commands d1))"
    by (rule Cons.IH)
  also have "\<dots> =
      n + length (filter (\<lambda>r. row_status r = RUNNING \<and> agent_id r \<in> Some ` set (a # as))
                   (commands d))"
    unfolding c1 n1 using count_reclaim_step [of a "commands d" as now]
    by (simp only: add.assoc)
  finally show ?case by (simp only: step)
qed

lemma stale_agent_iff:
  "stale_agent d cutoff a \<longleftrightarrow>
     a \<in> set (map hb_agent_id
               (filter (\<lambda>h. iso_less (last_heartbeat h) cutoff \<and>
                             current_command_id h \<noteq> None)
                  (agent_heartbeats d)))"
  by (auto simp: stale_agent_def list_ex_iff)

lemma reclaimed_iff:
  "reclaimed d cutoff r \<longleftrightarrow>
     row_status r = RUNNING \<and>
     agent_id r \<in> Some ` set (map hb_agent_id
               (filter (\<lambda>h. iso_less (last_heartbeat h) cutoff \<and>
                             current_command_id h \<noteq> None)
                  (agent_heartbeats d)))"
  unfolding reclaimed_def stale_agent_iff by (cases "agent_id r") auto

lemma stale_transaction_eq:
  "stale_transaction cutoff now d =
     (length (filter (reclaimed d cutoff) (commands d)),
      \<lparr>commands = map (\<lambda>r. if reclaimed d cutoff r then reset_row now r else r) (commands d),
       agent_heartbeats =
         map (\<lambda>h. if stale_agent d cutoff (hb_agent_id h)
                   then h\<lparr>current_command_id := None\<rparr> else h) (agent_heartbeats d)\<rparr>)"
proof -
  let ?S = "filter (\<lambda>h. iso_less (last_heartbeat h) cutoff \<and> current_command_id h \<noteq> None)
              (agent_heartbeats d)"
  let ?s = "fold (reclaim_agent now) (map hb_agent_id ?S) (d, 0)"
  have cs: "stale_transaction cutoff now d = (if ?S = [] then (0, d) else (snd ?s, fst ?s))"
    by (simp add: stale_transaction_def Let_def)
  have c: "commands (fst ?s) =
      map (\<lambda>r. if reclaimed d cutoff r then reset_row now r else r) (commands d)"
    unfolding fold_reclaim_commands reclaimed_iff ..
  have h: "agent_heartbeats (fst ?s) =
      map (\<lambda>h. if stale_agent d cutoff (hb_agent_id h) then h\<lparr>current_command_id := None\<rparr> else h)
        (agent_heartbeats d)"
    unfolding fold_reclaim_heartbeats stale_agent_iff ..
  have n: "snd ?s = length (filter (reclaimed d cutoff) (commands d))"
    unfolding fold_reclaim_count reclaimed_iff by simp
  have full: "(snd ?s, fst ?s) =
     (length (filter (reclaimed d cutoff) (commands d)),
      \<lparr>commands = map (\<lambda>r. if reclaimed d cutoff r then reset_row now r else r) (commands d),
       agent_heartbeats =
         map (\<lambda>h. if stale_agent d cutoff (hb_agent_id h) then h\<lparr>current_command_id := None\<rparr> else h)
           (agent_heartbeats d)\<rparr>)"
    using c h n by (cases "fst ?s") simp
  show ?thesis
  proof (cases "?S = []")
    case True
    then have "fst ?s = d" "snd ?s = 0" by simp_all
    with full True cs show ?thesis by simp
  next
    case False
    with full cs show ?thesis by simp
  qed
qed


lemma first_by_created_at_props:
  "first_by_created_at rs = Some p \<Longrightarrow>
     p \<in> set rs \<and> (\<forall>q\<in>set rs. created_at p \<le> created_at q)"
proof (induction rs arbitrary: p)
  case Nil
  then show ?case by simp
next
  case (Cons r rs)
  show ?case
  proof (cases "first_by_created_at rs")
    case None
    then have "rs = []" by (cases rs) (auto split: option.splits if_splits)
    with Cons.prems show ?thesis by simp
  next
    case (Some m)
    with Cons.IH have m: "m \<in> set rs" "\<forall>q\<in>set rs. created_at m \<le> created_at q" by auto
    show ?thesis
    proof (cases "created_at r \<le> created_at m")
      case True
      with Some Cons.prems have "p = r" by simp
      with True m show ?thesis by fastforce
    next
      case False
      with Some Cons.prems have "p = m" by simp
      with False m show ?thesis by fastforce
    qed
  qed
qed

lemma first_by_created_at_None: "first_by_created_at rs = None \<longleftrightarrow> rs = []"
  by (cases rs) (auto split: option.splits if_splits)

lemma next_pending_props:
  assumes "next_pending d = Some p"
  shows "p \<in> set (commands d)" "row_status p = PENDING"
    "\<forall>q\<in>set (commands d). row_status q = PENDING \<longrightarrow> created_at p \<le> created_at q"
  using first_by_created_at_props [OF assms [unfolded next_pending_def]] by auto

lemma commands_fetchNextCommand:
  "commands (snd (fetchNextCommand now hb a d)) =
     (case find (\<lambda>r. agent_id r = Some a \<and> row_status r = RUNNING) (commands d) of
        Some e \<Rightarrow> commands d
      | None \<Rightarrow>
          (case next_pending d of
             None \<Rightarrow> commands d
           | Some p \<Rightarrow>
               map (\<lambda>r. if row_id r = row_id p
                         then r\<lparr>row_status := RUNNING, agent_id := Some a,
                                started_at := Some now, updated_at := now\<rparr>
                         else r) (commands d)))"
  by (simp add: fetchNextCommand_def split: option.splits)

lemma commands_completeCommand:
  "commands (snd (completeCommand now hb c a st res err d)) =
     (case find (\<lambda>r. row_id r = c \<and> agent_id r = Some a \<and> row_status r = RUNNING) (commands d) of
        None \<Rightarrow> commands d
      | Some r0 \<Rightarrow>
          map (\<lambda>r. if row_id r = c \<and> agent_id r = Some a
                    then r\<lparr>row_status := status_of st, row_result := Some (finalResult res err),
                           completed_at := Some now, updated_at := now\<rparr>
                    else r) (commands d))"
  by (simp add: completeCommand_def Let_def split: option.splits)

lemma commands_createCommand:
  "createCommand now i ty p d = Inr cd \<Longrightarrow>
     i \<notin> set (map row_id (commands d)) \<and>
     commands (snd cd) = commands d @
       [\<lparr>row_id = i, row_type = ty, row_payload = p, row_status = PENDING,
         row_result = None, agent_id = None, created_at = now, updated_at = now,
         started_at = None, completed_at = None\<rparr>]"
  by (auto simp: createCommand_def split: if_splits)

lemma terminal_status_of [simp]: "status_of st = COMPLETED \<or> status_of st = FAILED"
  by (cases st) simp_all

lemma status_of_neq [simp]: "status_of st \<noteq> RUNNING" "status_of st \<noteq> PENDING"
  by (cases st; simp)+

subsection \<open>Result reporting\<close>

text \<open>What \<open>{ ...result, error }\<close> is of an array, a text, \<open>null\<close> and an object.\<close>

lemma spread_error_examples:
  "spread_error (JArr [JBool True, JNull]) ''boom'' =
     JObj [(''0'', JBool True), (''1'', JNull), (''error'', JStr ''boom'')]"
  "spread_error (JStr ''ab'') ''boom'' =
     JObj [(''0'', JStr ''a''), (''1'', JStr ''b''), (''error'', JStr ''boom'')]"
  "spread_error JNull ''boom'' = JObj [(''error'', JStr ''boom'')]"
  "spread_error (JObj [(''status'', JNum 0), (''error'', JNull)]) ''boom'' =
     JObj [(''status'', JNum 0), (''error'', JStr ''boom'')]"
  by code_simp+

lemma completeCommand_rejected:
  "find (\<lambda>r. row_id r = c \<and> agent_id r = Some a \<and> row_status r = RUNNING) (commands d) = None
   \<Longrightarrow> completeCommand now hb c a st res err d = (False, d)"
  by (simp add: completeCommand_def)

lemma completeCommand_accepted:
  assumes "find (\<lambda>r. row_id r = c \<and> agent_id r = Some a \<and> row_status r = RUNNING) (commands d)
             = Some r"
  shows "fst (completeCommand now hb c a st res err d)"
proof -
  from assms have "r \<in> set (commands d)" "row_id r = c \<and> agent_id r = Some a"
    by (auto simp: find_Some_iff)
  then have "filter (\<lambda>r. row_id r = c \<and> agent_id r = Some a) (commands d) \<noteq> []"
    by (auto simp: filter_empty_conv)
  with assms show ?thesis by (simp add: completeCommand_def Let_def)
qed

text \<open>
  C3. With the ids of the commands distinct (the primary key), \<open>completeCommand\<close> returns
  true exactly when the stored command with that id is RUNNING and owned by the reporting
  agent; when it returns false the whole database, and so the command's record and the
  agent's heartbeat record, is as it was.
\<close>

theorem completeCommand_true_iff_running_owner:
  assumes "distinct (map row_id (commands d))"
  shows "fst (completeCommand now hb c a st res err d) =
           (case getCommand d c of
              None \<Rightarrow> False
            | Some command \<Rightarrow> status command = RUNNING \<and> agentId command = Some a)
         \<and> (\<not> fst (completeCommand now hb c a st res err d) \<longrightarrow>
              snd (completeCommand now hb c a st res err d) = d)"
proof -
  let ?f = "find (\<lambda>r. row_id r = c \<and> agent_id r = Some a \<and> row_status r = RUNNING) (commands d)"
  have f: "?f = (case find (\<lambda>r. row_id r = c) (commands d) of
                   None \<Rightarrow> None
                 | Some r \<Rightarrow> if agent_id r = Some a \<and> row_status r = RUNNING then Some r else None)"
    using assms by (rule find_by_id_distinct)
  show ?thesis
  proof (cases ?f)
    case None
    then have "completeCommand now hb c a st res err d = (False, d)"
      by (rule completeCommand_rejected)
    moreover from None f have "(case getCommand d c of
              None \<Rightarrow> False
            | Some command \<Rightarrow> status command = RUNNING \<and> agentId command = Some a) = False"
      by (auto simp: getCommand_def rowToCommand_def split: option.splits if_splits)
    ultimately show ?thesis by simp
  next
    case (Some r)
    then have "fst (completeCommand now hb c a st res err d)"
      by (rule completeCommand_accepted)
    moreover from Some f have "(case getCommand d c of
              None \<Rightarrow> False
            | Some command \<Rightarrow> status command = RUNNING \<and> agentId command = Some a)"
      by (auto simp: getCommand_def rowToCommand_def split: option.splits if_splits)
    ultimately show ?thesis by simp
  qed
qed

theorem completeCommand_true_iff_running_owner_witness:
  "distinct (map row_id (commands db_running))
   \<and> fst (completeCommand 30 31 ''c1'' ''agent-1'' T_COMPLETED JNull None db_running)
   \<and> \<not> fst (completeCommand 30 31 ''c1'' ''agent-2'' T_COMPLETED JNull None db_running)
   \<and> snd (completeCommand 30 31 ''c1'' ''agent-2'' T_COMPLETED JNull None db_running)
       = db_running"
  using completeCommand_true_iff_running_owner
          [of db_running 30 31 "''c1''" "''agent-1''" T_COMPLETED JNull None]
    completeCommand_true_iff_running_owner
          [of db_running 30 31 "''c1''" "''agent-2''" T_COMPLETED JNull None]
  by (simp add: db_running_def row_running_def getCommand_def rowToCommand_def)

subsection \<open>Ownership agreement\<close>




subsection \<open>Terminal immutability\<close>

lemma fixed_row_in_map:
  "r \<in> set rs \<Longrightarrow> f r = r \<Longrightarrow> r \<in> set (map f rs)"
  by (simp add: image_iff) metis

lemma same_id_same_row:
  "distinct (map row_id rs) \<Longrightarrow> r \<in> set rs \<Longrightarrow> q \<in> set rs \<Longrightarrow> row_id r = row_id q \<Longrightarrow> r = q"
  by (meson distinct_map inj_on_eq_iff)

lemma find_own_id:
  "distinct (map row_id rs) \<Longrightarrow> r \<in> set rs \<Longrightarrow> find (\<lambda>x. row_id x = row_id r) rs = Some r"
proof (induction rs)
  case Nil
  then show ?case by simp
next
  case (Cons x xs)
  show ?case
  proof (cases "x = r")
    case True
    then show ?thesis by simp
  next
    case False
    with Cons.prems have "r \<in> set xs" "row_id x \<notin> row_id ` set xs" by simp_all
    then have "row_id x \<noteq> row_id r" by (metis imageI)
    with Cons \<open>r \<in> set xs\<close> show ?thesis by simp
  qed
qed

lemma map_row_id_preserved:
  "(\<And>r. row_id (f r) = row_id r) \<Longrightarrow> map row_id (map f rs) = map row_id rs"
  by (induction rs) simp_all

lemma ids_apply_op:
  "map row_id (commands (apply_op op d)) = map row_id (commands d) \<or>
   (\<exists>i. i \<notin> set (map row_id (commands d)) \<and>
        map row_id (commands (apply_op op d)) = map row_id (commands d) @ [i])"
proof (cases op)
  case (CreateCommand now i ty p)
  show ?thesis
  proof (cases "createCommand now i ty p d")
    case (Inl e)
    with CreateCommand show ?thesis by simp
  next
    case (Inr cd)
    from commands_createCommand [OF Inr] CreateCommand Inr show ?thesis by simp
  qed
next
  case (FetchNextCommand now hb a)
  have "\<And>p. map row_id (map (\<lambda>r. if row_id r = row_id p
                         then r\<lparr>row_status := RUNNING, agent_id := Some a,
                                started_at := Some now, updated_at := now\<rparr>
                         else r) (commands d)) = map row_id (commands d)"
    by (rule map_row_id_preserved) simp
  with FetchNextCommand show ?thesis
    by (simp add: commands_fetchNextCommand split: option.splits)
next
  case (CompleteCommand now hb c a st res err)
  have "map row_id (map (\<lambda>r. if row_id r = c \<and> agent_id r = Some a
                    then r\<lparr>row_status := status_of st, row_result := Some (finalResult res err),
                           completed_at := Some now, updated_at := now\<rparr>
                    else r) (commands d)) = map row_id (commands d)"
    by (rule map_row_id_preserved) simp
  with CompleteCommand show ?thesis
    by (simp add: commands_completeCommand split: option.splits)
next
  case (UpdateHeartbeat now a c)
  then show ?thesis by simp
next
  case (CheckStaleCommands date_now now timeoutMs)
  have "map row_id (map (\<lambda>r. if reclaimed d (date_now - timeoutMs) r then reset_row now r else r)
          (commands d)) = map row_id (commands d)"
    by (rule map_row_id_preserved) simp
  with CheckStaleCommands show ?thesis
    by (simp add: checkStaleCommands_def stale_transaction_eq)
next
  case (RecoverFromCrash now)
  have "map row_id (map (\<lambda>r. if row_status r = RUNNING then reset_row now r else r)
          (commands d)) = map row_id (commands d)"
    by (rule map_row_id_preserved) simp
  with RecoverFromCrash show ?thesis
    by (simp add: commands_recoverFromCrash)
qed

lemma distinct_ids_apply_op:
  "distinct (map row_id (commands d)) \<Longrightarrow> distinct (map row_id (commands (apply_op op d)))"
  using ids_apply_op [of op d] by auto

lemma terminal_row_stays:
  assumes "distinct (map row_id (commands d))" and "r \<in> set (commands d)" and "terminal r"
  shows "r \<in> set (commands (apply_op op d))"
proof (cases op)
  case (CreateCommand now i ty p)
  show ?thesis
  proof (cases "createCommand now i ty p d")
    case (Inl e)
    with CreateCommand assms show ?thesis by simp
  next
    case (Inr cd)
    from commands_createCommand [OF Inr] CreateCommand Inr assms show ?thesis by simp
  qed
next
  case (FetchNextCommand now hb a)
  show ?thesis
  proof (cases "find (\<lambda>r. agent_id r = Some a \<and> row_status r = RUNNING) (commands d)")
    case (Some e)
    with FetchNextCommand assms show ?thesis by (simp add: commands_fetchNextCommand)
  next
    case None
    show ?thesis
    proof (cases "next_pending d")
      case no: None
      with None FetchNextCommand assms show ?thesis by (simp add: commands_fetchNextCommand)
    next
      case (Some p)
      let ?f = "\<lambda>r. if row_id r = row_id p
                  then r\<lparr>row_status := RUNNING, agent_id := Some a,
                         started_at := Some now, updated_at := now\<rparr>
                  else r"
      from next_pending_props [OF Some] have p: "p \<in> set (commands d)" "row_status p = PENDING"
        by simp_all
      have "row_id r \<noteq> row_id p"
      proof
        assume "row_id r = row_id p"
        with assms(1,2) p(1) have "r = p" by (rule same_id_same_row)
        with assms(3) p(2) show False by (simp add: terminal_def)
      qed
      then have "?f r = r" by simp
      with assms(2) have "r \<in> set (map ?f (commands d))" by (rule fixed_row_in_map)
      with None Some FetchNextCommand show ?thesis by (simp add: commands_fetchNextCommand)
    qed
  qed
next
  case (CompleteCommand now hb c a st res err)
  show ?thesis
  proof (cases "find (\<lambda>r. row_id r = c \<and> agent_id r = Some a \<and> row_status r = RUNNING) (commands d)")
    case None
    with CompleteCommand assms show ?thesis by (simp add: commands_completeCommand)
  next
    case (Some r0)
    let ?f = "\<lambda>r. if row_id r = c \<and> agent_id r = Some a
                    then r\<lparr>row_status := status_of st, row_result := Some (finalResult res err),
                           completed_at := Some now, updated_at := now\<rparr>
                    else r"
    from Some have r0: "r0 \<in> set (commands d)" "row_id r0 = c" "row_status r0 = RUNNING"
      by (auto simp: find_Some_iff)
    have "row_id r \<noteq> c"
    proof
      assume "row_id r = c"
      with r0(2) have "row_id r = row_id r0" by simp
      with assms(1,2) r0(1) have "r = r0" by (rule same_id_same_row)
      with assms(3) r0(3) show False by (simp add: terminal_def)
    qed
    then have "?f r = r" by simp
    with assms(2) have "r \<in> set (map ?f (commands d))" by (rule fixed_row_in_map)
    with Some CompleteCommand show ?thesis by (simp add: commands_completeCommand)
  qed
next
  case (UpdateHeartbeat now a c)
  with assms show ?thesis by simp
next
  case (CheckStaleCommands date_now now timeoutMs)
  let ?f = "\<lambda>r. if reclaimed d (date_now - timeoutMs) r then reset_row now r else r"
  from assms(3) have "\<not> reclaimed d (date_now - timeoutMs) r"
    by (auto simp: reclaimed_def terminal_def)
  then have "?f r = r" by simp
  with assms(2) have "r \<in> set (map ?f (commands d))" by (rule fixed_row_in_map)
  with CheckStaleCommands assms(2) show ?thesis
    by (simp add: checkStaleCommands_def stale_transaction_eq)
next
  case (RecoverFromCrash now)
  let ?f = "\<lambda>r. if row_status r = RUNNING then reset_row now r else r"
  from assms(3) have "?f r = r"
    by (auto simp: terminal_def)
  with assms(2) have "r \<in> set (map ?f (commands d))" by (rule fixed_row_in_map)
  with RecoverFromCrash show ?thesis by (simp add: commands_recoverFromCrash)
qed

lemma terminal_row_stays_run:
  "distinct (map row_id (commands d)) \<Longrightarrow> r \<in> set (commands d) \<Longrightarrow> terminal r \<Longrightarrow>
   r \<in> set (commands (apply_ops ops d)) \<and> distinct (map row_id (commands (apply_ops ops d)))"
proof (induction ops arbitrary: d)
  case Nil
  then show ?case by (simp add: apply_ops_def)
next
  case (Cons op ops)
  have "apply_ops (op # ops) d = apply_ops ops (apply_op op d)"
    by (simp add: apply_ops_def)
  moreover from Cons.prems have "distinct (map row_id (commands (apply_op op d)))"
    by (simp add: distinct_ids_apply_op)
  moreover from Cons.prems have "r \<in> set (commands (apply_op op d))"
    by (simp add: terminal_row_stays)
  ultimately show ?case using Cons.IH [of "apply_op op d"] Cons.prems(3) by simp
qed

text \<open>
  C4. With the ids of the commands distinct, a command that is COMPLETED or FAILED is the
  same row, in every column, after any sequence of operations of the database; so no
  column other than \<open>updated_at\<close> changes (\<open>updated_at\<close> does not change either) and its
  status never returns to PENDING or RUNNING. What \<open>getCommand\<close> reads stays the same.
\<close>

theorem terminal_commands_immutable:
  assumes "distinct (map row_id (commands d))"
    and "find (\<lambda>x. row_id x = i) (commands d) = Some r"
    and "row_status r = COMPLETED \<or> row_status r = FAILED"
  shows "find (\<lambda>x. row_id x = i) (commands (apply_ops ops d)) = Some r
         \<and> getCommand (apply_ops ops d) i = getCommand d i"
proof -
  from assms(2) have r: "r \<in> set (commands d)" "row_id r = i"
    by (auto simp: find_Some_iff)
  with assms have "r \<in> set (commands (apply_ops ops d))"
    "distinct (map row_id (commands (apply_ops ops d)))"
    using terminal_row_stays_run [of d r ops] by (simp_all add: terminal_def)
  then have "find (\<lambda>x. row_id x = row_id r) (commands (apply_ops ops d)) = Some r"
    by (simp add: find_own_id)
  with r assms(2) show ?thesis by (simp add: getCommand_def)
qed

theorem terminal_commands_immutable_witness:
  "distinct (map row_id (commands db_completed))
   \<and> find (\<lambda>x. row_id x = ''c1'') (commands db_completed) = Some row_completed
   \<and> row_status row_completed = COMPLETED
   \<and> find (\<lambda>x. row_id x = ''c1'')
        (commands (apply_ops
           [CompleteCommand 40 41 ''c1'' ''agent-1'' T_FAILED JNull (Some ''late''),
            FetchNextCommand 50 51 ''agent-1'', CheckStaleCommands 100000 100001 60000,
            RecoverFromCrash 100002] db_completed)) = Some row_completed"
  using terminal_commands_immutable [of db_completed "''c1''" row_completed
      "[CompleteCommand 40 41 ''c1'' ''agent-1'' T_FAILED JNull (Some ''late''),
        FetchNextCommand 50 51 ''agent-1'', CheckStaleCommands 100000 100001 60000,
        RecoverFromCrash 100002]"]
  by (simp add: db_completed_def row_completed_def)

subsection \<open>Heartbeat correspondence\<close>







lemma heartbeat_of_commands_update [simp]:
  "heartbeat_of (d\<lparr>commands := cs\<rparr>) = heartbeat_of d"
  by (simp add: heartbeat_of_def fun_eq_iff)

lemma heartbeats_recoverFromCrash [simp]:
  "agent_heartbeats (recoverFromCrash now d) = agent_heartbeats d"
  by (simp add: recoverFromCrash_def)

lemma fetch_cases:
  obtains (existing) e where
      "find (\<lambda>r. agent_id r = Some a \<and> row_status r = RUNNING) (commands d) = Some e"
      "fetchNextCommand now hb a d = (Some (rowToCommand e), d)"
  | (nothing) 
      "find (\<lambda>r. agent_id r = Some a \<and> row_status r = RUNNING) (commands d) = None"
      "next_pending d = None" "fetchNextCommand now hb a d = (None, d)"
  | (assigned) p where
      "find (\<lambda>r. agent_id r = Some a \<and> row_status r = RUNNING) (commands d) = None"
      "next_pending d = Some p"
      "fetchNextCommand now hb a d =
         (Some ((rowToCommand p)\<lparr>status := RUNNING, agentId := Some a,
                  updatedAt := now, startedAt := Some now\<rparr>),
          updateHeartbeat hb a (Some (row_id p))
            (d\<lparr>commands :=
               map (\<lambda>r. if row_id r = row_id p
                         then r\<lparr>row_status := RUNNING, agent_id := Some a,
                                started_at := Some now, updated_at := now\<rparr>
                         else r) (commands d)\<rparr>))"
  by (cases "find (\<lambda>r. agent_id r = Some a \<and> row_status r = RUNNING) (commands d)";
      cases "next_pending d") (auto simp: fetchNextCommand_def)

lemma complete_cases:
  obtains (rejected)
      "find (\<lambda>r. row_id r = c \<and> agent_id r = Some a \<and> row_status r = RUNNING) (commands d) = None"
      "completeCommand now hb c a st res err d = (False, d)"
  | (accepted) r0 where
      "find (\<lambda>r. row_id r = c \<and> agent_id r = Some a \<and> row_status r = RUNNING) (commands d) = Some r0"
      "snd (completeCommand now hb c a st res err d) =
         updateHeartbeat hb a None
           (d\<lparr>commands :=
              map (\<lambda>r. if row_id r = c \<and> agent_id r = Some a
                        then r\<lparr>row_status := status_of st,
                               row_result := Some (finalResult res err),
                               completed_at := Some now, updated_at := now\<rparr>
                        else r) (commands d)\<rparr>)"
  by (cases "find (\<lambda>r. row_id r = c \<and> agent_id r = Some a \<and> row_status r = RUNNING) (commands d)")
     (auto simp: completeCommand_def Let_def)













subsection \<open>Assignment\<close>

lemma find_map_comp: "find P (map f xs) = map_option f (find (P \<circ> f) xs)"
  by (induction xs) simp_all

lemma find_filter_conj: "find Q (filter P xs) = find (\<lambda>x. P x \<and> Q x) xs"
  by (induction xs) simp_all

lemma first_by_created_at_first:
  "first_by_created_at rs = Some p \<Longrightarrow> find (\<lambda>r. created_at r = created_at p) rs = Some p"
proof (induction rs arbitrary: p)
  case Nil
  then show ?case by simp
next
  case (Cons r rs)
  show ?case
  proof (cases "first_by_created_at rs")
    case None
    with Cons.prems show ?thesis by simp
  next
    case (Some m)
    show ?thesis
    proof (cases "created_at r \<le> created_at m")
      case True
      with Some Cons.prems show ?thesis by simp
    next
      case False
      with Some Cons.prems have "p = m" by simp
      with False Some Cons.IH show ?thesis by simp
    qed
  qed
qed

lemma next_pending_first:
  "next_pending d = Some p \<Longrightarrow>
   find (\<lambda>r. row_status r = PENDING \<and> created_at r = created_at p) (commands d) = Some p"
  unfolding next_pending_def
  by (drule first_by_created_at_first) (simp add: find_filter_conj)

lemma next_pending_exists:
  "q \<in> set (commands d) \<Longrightarrow> row_status q = PENDING \<Longrightarrow> \<exists>p. next_pending d = Some p"
  by (cases "next_pending d")
     (auto simp: next_pending_def first_by_created_at_None filter_empty_conv)

lemma rowToCommand_assigned:
  "rowToCommand (r\<lparr>row_status := RUNNING, agent_id := Some a, started_at := Some now, updated_at := now\<rparr>)
   = (rowToCommand r)\<lparr>status := RUNNING, agentId := Some a, updatedAt := now, startedAt := Some now\<rparr>"
  by (simp add: rowToCommand_def)

text \<open>
  C2. With the ids of the commands distinct, \<open>fetchNextCommand\<close> is idempotent for an
  agent: when the agent has a RUNNING command (the one \<open>getUnfinishedCommand\<close> reads), the
  call returns it and leaves the database as it is; and a second call for the same agent,
  right after a first one, returns the same \<open>Command\<close> as the first and changes nothing.
\<close>

theorem fetchNextCommand_idempotent:
  assumes "distinct (map row_id (commands d))"
  shows "(\<forall>c. getUnfinishedCommand d a = Some c \<longrightarrow> fetchNextCommand now hb a d = (Some c, d))
       \<and> fetchNextCommand now' hb' a (snd (fetchNextCommand now hb a d)) =
           (fst (fetchNextCommand now hb a d), snd (fetchNextCommand now hb a d))"
proof (cases rule: fetch_cases [of a d now hb])
  case (existing e)
  then show ?thesis by (simp add: getUnfinishedCommand_def fetchNextCommand_def)
next
  case nothing
  then show ?thesis by (simp add: getUnfinishedCommand_def fetchNextCommand_def)
next
  case (assigned p)
  let ?P = "\<lambda>r. agent_id r = Some a \<and> row_status r = RUNNING"
  let ?f = "\<lambda>r. if row_id r = row_id p
                         then r\<lparr>row_status := RUNNING, agent_id := Some a,
                                started_at := Some now, updated_at := now\<rparr>
                         else r"
  let ?d = "updateHeartbeat hb a (Some (row_id p)) (d\<lparr>commands := map ?f (commands d)\<rparr>)"
  from next_pending_props(1) [OF assigned(2)] have p: "p \<in> set (commands d)" .
  have "\<And>r. r \<in> set (commands d) \<Longrightarrow> (?P \<circ> ?f) r = (row_id r = row_id p)"
    using assigned(1) by (auto simp: find_None_iff)
  then have "find (?P \<circ> ?f) (commands d) = find (\<lambda>r. row_id r = row_id p) (commands d)"
    by (rule find_cong [OF refl])
  also from assms p have "\<dots> = Some p" by (rule find_own_id)
  finally have "find ?P (commands ?d) = Some (?f p)"
    by (simp add: find_map_comp)
  then have "fetchNextCommand now' hb' a ?d = (Some (rowToCommand (?f p)), ?d)"
    by (simp add: fetchNextCommand_def)
  moreover have "rowToCommand (?f p) =
     (rowToCommand p)\<lparr>status := RUNNING, agentId := Some a, updatedAt := now, startedAt := Some now\<rparr>"
    by (simp add: rowToCommand_assigned)
  ultimately show ?thesis using assigned by (simp add: getUnfinishedCommand_def)
qed

theorem fetchNextCommand_idempotent_witness:
  "distinct (map row_id (commands db_tied))
   \<and> fetchNextCommand 20 21 ''agent-1'' (snd (fetchNextCommand 10 11 ''agent-1'' db_tied)) =
       (fst (fetchNextCommand 10 11 ''agent-1'' db_tied),
        snd (fetchNextCommand 10 11 ''agent-1'' db_tied))
   \<and> getUnfinishedCommand db_running ''agent-1'' = Some (rowToCommand row_running)
   \<and> fetchNextCommand 20 21 ''agent-1'' db_running =
        (Some (rowToCommand row_running), db_running)"
  using fetchNextCommand_idempotent [of db_tied "''agent-1''" 10 11 20 21]
    fetchNextCommand_idempotent [of db_running "''agent-1''" 20 21 20 21]
  by (simp add: db_tied_def row_a_def row_b_def db_running_def row_running_def
      getUnfinishedCommand_def)

text \<open>
  C5, as the code has it. When the agent has no RUNNING command and some command is
  PENDING, \<open>fetchNextCommand\<close> assigns a PENDING command with the smallest \<open>created_at\<close>:
  no PENDING command was created earlier. Among the PENDING commands of that same
  \<open>created_at\<close> it is the first in the table, whatever the ids are.
\<close>

theorem fetchNextCommand_oldest_pending:
  assumes "getUnfinishedCommand d a = None"
    and "q \<in> set (commands d)" and "row_status q = PENDING"
  shows "\<exists>p. fst (fetchNextCommand now hb a d) =
               Some ((rowToCommand p)\<lparr>status := RUNNING, agentId := Some a,
                       updatedAt := now, startedAt := Some now\<rparr>)
            \<and> p \<in> set (commands d) \<and> row_status p = PENDING
            \<and> (\<forall>q'\<in>set (commands d). row_status q' = PENDING \<longrightarrow> created_at p \<le> created_at q')
            \<and> find (\<lambda>r. row_status r = PENDING \<and> created_at r = created_at p) (commands d) = Some p"
proof -
  from assms(2,3) obtain p where p: "next_pending d = Some p"
    using next_pending_exists by blast
  from assms(1) have "find (\<lambda>r. agent_id r = Some a \<and> row_status r = RUNNING) (commands d) = None"
    by (simp add: getUnfinishedCommand_def)
  with p have "fst (fetchNextCommand now hb a d) =
               Some ((rowToCommand p)\<lparr>status := RUNNING, agentId := Some a,
                       updatedAt := now, startedAt := Some now\<rparr>)"
    by (simp add: fetchNextCommand_def)
  with next_pending_props [OF p] next_pending_first [OF p] show ?thesis by blast
qed

theorem fetchNextCommand_oldest_pending_witness:
  "getUnfinishedCommand db_tied ''agent-1'' = None
   \<and> row_a \<in> set (commands db_tied) \<and> row_status row_a = PENDING
   \<and> (\<exists>p. fst (fetchNextCommand 10 11 ''agent-1'' db_tied) =
               Some ((rowToCommand p)\<lparr>status := RUNNING, agentId := Some ''agent-1'',
                       updatedAt := 10, startedAt := Some 10\<rparr>)
            \<and> p \<in> set (commands db_tied) \<and> row_status p = PENDING
            \<and> (\<forall>q'\<in>set (commands db_tied). row_status q' = PENDING \<longrightarrow> created_at p \<le> created_at q')
            \<and> find (\<lambda>r. row_status r = PENDING \<and> created_at r = created_at p) (commands db_tied) = Some p)"
proof -
  have h: "getUnfinishedCommand db_tied ''agent-1'' = None"
    "row_a \<in> set (commands db_tied)" "row_status row_a = PENDING"
    by (simp_all add: getUnfinishedCommand_def db_tied_def row_a_def row_b_def)
  from h fetchNextCommand_oldest_pending [OF h, of 10 11] show ?thesis by blast
qed

text \<open>
  C5 as stated fails: of two PENDING commands created in the same millisecond, \<open>b\<close>
  stored first and \<open>a\<close> second, the specification's order (ties broken by id) selects \<open>a\<close>
  and \<open>fetchNextCommand\<close> assigns \<open>b\<close>.
\<close>

theorem fetchNextCommand_ignores_id_order:
  "getUnfinishedCommand db_tied ''agent-1'' = None
   \<and> map_option cmd_id (fst (fetchNextCommand 10 11 ''agent-1'' db_tied)) = Some ''b''
   \<and> spec_next_pending db_tied row_a \<and> \<not> spec_next_pending db_tied row_b
   \<and> row_id row_b = ''b''"
  by (simp add: getUnfinishedCommand_def fetchNextCommand_def next_pending_def db_tied_def
      row_a_def row_b_def rowToCommand_def spec_next_pending_def spec_precedes_def)

subsection \<open>The result route\<close>

text \<open>
  C6, as the code has it. For a report that passes the handler's checks and on which
  \<open>completeCommand\<close> returns false, POST /agent/result answers 200 exactly when the
  command exists and is COMPLETED or FAILED, whichever terminal state the report asked for
  and whoever owned the command, and 409 otherwise; the database is as it was.
\<close>

theorem resultRoute_rejected_report:
  assumes "valid_report b"
    and "\<not> fst (completeCommand now hb (the (req_commandId b)) (the (req_agentId b))
                 (report_status b) (req_result b) (req_error b) d)"
  shows "code (fst (resultRoute now hb b d)) =
           (if already_terminal d (the (req_commandId b)) then 200 else 409)
         \<and> snd (resultRoute now hb b d) = d"
proof -
  let ?sd = "completeCommand now hb (the (req_commandId b)) (the (req_agentId b))
                 (report_status b) (req_result b) (req_error b) d"
  from assms(2) have "find (\<lambda>r. row_id r = the (req_commandId b) \<and>
       agent_id r = Some (the (req_agentId b)) \<and> row_status r = RUNNING) (commands d) = None"
    by (cases rule: complete_cases [of "the (req_commandId b)" "the (req_agentId b)" d now hb "report_status b" "req_result b" "req_error b"])
       (auto dest: completeCommand_accepted)
  then have sd: "?sd = (False, d)" by (rule completeCommand_rejected)
  from assms(1) have v: "\<not> (falsy (req_agentId b) \<or> falsy (req_commandId b) \<or> falsy (req_status b))"
    "\<not> (req_status b \<noteq> Some ''COMPLETED'' \<and> req_status b \<noteq> Some ''FAILED'')"
    by (auto simp: valid_report_def falsy_def)
  show ?thesis
    unfolding resultRoute_def Let_def report_status_def [symmetric]
    by (simp only: v if_False sd fst_conv snd_conv not_False_eq_True if_True)
       (simp add: already_terminal_def split: option.splits)
qed

theorem resultRoute_rejected_report_witness:
  "valid_report report_late
   \<and> \<not> fst (completeCommand 40 41 ''c1'' ''agent-2'' T_FAILED JNull (Some ''late'') db_running)
   \<and> code (fst (resultRoute 40 41 report_late db_running)) = 409
   \<and> \<not> fst (completeCommand 40 41 ''c1'' ''agent-2'' T_FAILED JNull (Some ''late'') db_completed)
   \<and> code (fst (resultRoute 40 41 report_late db_completed)) = 200"
  using resultRoute_rejected_report [of report_late 40 41 db_running]
    resultRoute_rejected_report [of report_late 40 41 db_completed]
  by (simp add: valid_report_def report_late_def report_status_def falsy_def already_terminal_def
      getCommand_def rowToCommand_def db_running_def row_running_def db_completed_def
      row_completed_def completeCommand_def)

text \<open>
  C6 as stated fails: \<open>c1\<close> was completed by \<open>agent-1\<close>; the report of \<open>agent-2\<close> that
  \<open>c1\<close> FAILED is not the replay of a report of its own, and it is acknowledged with 200.
\<close>

theorem resultRoute_acknowledges_foreign_report:
  "valid_report report_late
   \<and> \<not> fst (completeCommand 40 41 ''c1'' ''agent-2'' T_FAILED JNull (Some ''late'') db_completed)
   \<and> code (fst (resultRoute 40 41 report_late db_completed)) = 200
   \<and> \<not> replay_of_own_report db_completed ''c1'' ''agent-2'' T_FAILED"
  by (simp add: valid_report_def report_late_def falsy_def replay_of_own_report_def
      getCommand_def rowToCommand_def db_completed_def row_completed_def completeCommand_def
      resultRoute_def)

subsection \<open>Stale reclamation\<close>

lemma list_ex_by_agent_distinct:
  "distinct (map hb_agent_id hs) \<Longrightarrow>
   list_ex (\<lambda>h. hb_agent_id h = a \<and> Q h) hs =
     (case find (\<lambda>h. hb_agent_id h = a) hs of None \<Rightarrow> False | Some h \<Rightarrow> Q h)"
proof (induction hs)
  case Nil
  then show ?case by simp
next
  case (Cons h hs)
  show ?case
  proof (cases "hb_agent_id h = a")
    case True
    from Cons.prems have "hb_agent_id h \<notin> hb_agent_id ` set hs" by simp
    with True have "\<forall>x\<in>set hs. hb_agent_id x \<noteq> a" by (metis imageI)
    then have "\<not> list_ex (\<lambda>h. hb_agent_id h = a \<and> Q h) hs"
      by (auto simp: list_ex_iff)
    with True show ?thesis by simp
  next
    case False
    with Cons show ?thesis by simp
  qed
qed

lemma stale_agent_by_heartbeat:
  "distinct (map hb_agent_id (agent_heartbeats d)) \<Longrightarrow>
   stale_agent d cutoff a =
     (case heartbeat_of d a of
        None \<Rightarrow> False
      | Some h \<Rightarrow> iso_less (last_heartbeat h) cutoff \<and> current_command_id h \<noteq> None)"
  unfolding stale_agent_def heartbeat_of_def by (rule list_ex_by_agent_distinct)

lemma reclaimed_by_heartbeat:
  "distinct (map hb_agent_id (agent_heartbeats d)) \<Longrightarrow>
   reclaimed d cutoff r = owner_selected d cutoff r"
  by (auto simp: reclaimed_def owner_selected_def stale_agent_by_heartbeat split: option.splits)

lemma heartbeat_of_own_agent:
  "distinct (map hb_agent_id hs) \<Longrightarrow> h \<in> set hs \<Longrightarrow>
   find (\<lambda>x. hb_agent_id x = hb_agent_id h) hs = Some h"
proof (induction hs)
  case Nil
  then show ?case by simp
next
  case (Cons x xs)
  show ?case
  proof (cases "x = h")
    case True
    then show ?thesis by simp
  next
    case False
    with Cons.prems have "h \<in> set xs" "hb_agent_id x \<notin> hb_agent_id ` set xs" by simp_all
    then have "hb_agent_id x \<noteq> hb_agent_id h" by (metis imageI)
    with Cons \<open>h \<in> set xs\<close> show ?thesis by simp
  qed
qed

lemma stale_agent_own_heartbeat:
  "distinct (map hb_agent_id (agent_heartbeats d)) \<Longrightarrow> h \<in> set (agent_heartbeats d) \<Longrightarrow>
   stale_agent d cutoff (hb_agent_id h) =
     (iso_less (last_heartbeat h) cutoff \<and> current_command_id h \<noteq> None)"
  by (simp add: stale_agent_by_heartbeat heartbeat_of_def heartbeat_of_own_agent)

text \<open>
  The instants the forms of the ISO text change at, and the order of the texts of four
  digits.
\<close>

lemma year_of_form_bounds:
  "year_of (- 62167219200001) = - 1" "year_of (- 62167219200000) = 0"
  "year_of 253402300799999 = 9999" "year_of 253402300800000 = 10000"
  by code_simp+

lemma iso_less_four_digits:
  "iso_form_of a = Four_digits \<Longrightarrow> iso_form_of b = Four_digits \<Longrightarrow> iso_less a b = (a < b)"
  by (simp add: iso_less_def)

text \<open>
  What \<open>checkStaleCommands\<close> does. When the cutoff is no time value it throws and writes
  nothing. Otherwise, with one heartbeat record for an agent (the primary key), it resets
  the RUNNING commands whose owner's heartbeat record is below the cutoff and names a
  command, clears the current command of those heartbeat records, and returns the number
  of commands it reset.
\<close>

lemma checkStaleCommands_throws:
  "\<not> valid_time (date_now - timeoutMs) \<Longrightarrow>
   checkStaleCommands date_now now timeoutMs d = Inl RangeError"
  by (simp add: checkStaleCommands_def)

lemma checkStaleCommands_reclaims:
  assumes "distinct (map hb_agent_id (agent_heartbeats d))"
    and "valid_time (date_now - timeoutMs)"
  shows "checkStaleCommands date_now now timeoutMs d =
     Inr (length (filter (owner_selected d (date_now - timeoutMs)) (commands d)),
      \<lparr>commands =
         map (\<lambda>r. if owner_selected d (date_now - timeoutMs) r
                   then r\<lparr>row_status := PENDING, agent_id := None, started_at := None,
                          updated_at := now\<rparr>
                   else r) (commands d),
       agent_heartbeats =
         map (\<lambda>h. if iso_less (last_heartbeat h) (date_now - timeoutMs) \<and>
                      current_command_id h \<noteq> None
                   then h\<lparr>current_command_id := None\<rparr> else h) (agent_heartbeats d)\<rparr>)"
proof -
  let ?c = "date_now - timeoutMs"
  have r: "reclaimed d ?c = owner_selected d ?c"
    using assms(1) by (simp add: fun_eq_iff reclaimed_by_heartbeat)
  have "map (\<lambda>h. if stale_agent d ?c (hb_agent_id h) then h\<lparr>current_command_id := None\<rparr> else h)
          (agent_heartbeats d) =
        map (\<lambda>h. if iso_less (last_heartbeat h) ?c \<and> current_command_id h \<noteq> None
                  then h\<lparr>current_command_id := None\<rparr> else h) (agent_heartbeats d)"
    using assms(1) by (intro map_cong refl) (simp add: stale_agent_own_heartbeat)
  with assms(2) show ?thesis
    unfolding checkStaleCommands_def stale_transaction_eq r reset_row_def by simp
qed

text \<open>
  A timeout that puts the cutoff beyond the time values makes \<open>checkStaleCommands\<close> throw;
  one that puts it after the year 9999 gives a text with a \<open>+\<close>, which is below every
  text of four digits, so that no heartbeat is selected.
\<close>

lemma checkStaleCommands_no_time_value:
  "checkStaleCommands 100000 100001 (- 8640000000000000) db_running = Inl RangeError"
  by (simp add: checkStaleCommands_def valid_time_def)

lemma checkStaleCommands_cutoff_after_9999:
  "checkStaleCommands 100000 100001 (- 300000000000000) db_running = Inr (0, db_running)"
  by (simp add: checkStaleCommands_def valid_time_def stale_transaction_def db_running_def
      iso_less_def iso_form_of_def)

text \<open>
  The command of an agent whose heartbeat record, of time 11, names it is reset at 100000,
  with a timeout of 60000.
\<close>

lemma checkStaleCommands_named_owner:
  "checkStaleCommands 100000 100001 60000 db_running =
     Inr (1, \<lparr>commands =
                 [row_running\<lparr>row_status := PENDING, agent_id := None, started_at := None,
                    updated_at := 100001\<rparr>],
              agent_heartbeats =
                 [\<lparr>hb_agent_id = ''agent-1'', last_heartbeat = 11,
                   current_command_id = None\<rparr>]\<rparr>)"
  by (simp add: checkStaleCommands_def stale_transaction_def valid_time_def db_running_def
      row_running_def iso_less_def iso_form_of_def reclaim_agent_def reset_row_def)

text \<open>
  C7. The claim is what the code documents (``Commands are considered stale if the agent
  hasn't sent a heartbeat in the timeout period''), and the code does not do it:
  \<open>agent-1\<close> runs \<open>c1\<close> and its heartbeat record, of time 12, names no command, as after
  a heartbeat of the agent's poll loop; at 100000, with a timeout of 60000, the owner's
  last heartbeat is older than the cutoff, so that \<open>c1\<close> is stale, and
  \<open>checkStaleCommands\<close> returns 0 and resets nothing: \<open>c1\<close> stays RUNNING.
\<close>

theorem checkStaleCommands_skips_unnamed_owner:
  "row_running \<in> set (commands db_lagging)
   \<and> stale_per_spec db_lagging (100000 - 60000) row_running
   \<and> checkStaleCommands 100000 100001 60000 db_lagging = Inr (0, db_lagging)"
  by (simp add: db_lagging_def row_running_def stale_per_spec_def heartbeat_of_def
      checkStaleCommands_def stale_transaction_def valid_time_def)

subsection \<open>The HTTP_GET_JSON executor and the agent's report\<close>

lemma executeHttpGetJson_failure:
  "failure_message (env_fetch env url) = Some m \<Longrightarrow>
   executeHttpGetJson env url = failed_request m"
  by (cases "env_fetch env url") (simp_all add: executeHttpGetJson_def)

text \<open>
  C9. For an HTTP_GET_JSON command (its payload passes the type guard), when the request
  is rejected (a transport failure, or the abort of the 30-second timer) or the reading of
  the body fails, with a message, the executor returns
  \<open>{status: 0, body: null, truncated: false, bytesReturned: 0, error: message}\<close> and
  throws nothing; the report the agent then posts, unless the process exits before it
  posts one, has status COMPLETED and that result.
\<close>

theorem http_failure_reported_completed:
  assumes "cmd_type command = ''HTTP_GET_JSON''"
    and "isHttpGetJsonPayload (payload command)"
    and "failure_message (env_fetch env (payload_url (payload command))) = Some message"
  shows "executeCommand env command =
           Returns (HttpGetJson \<lparr>res_status = 0, res_body = BodyNull, truncated = False,
                      bytesReturned = 0, res_error = Some message\<rparr>)
       \<and> executeAndReport agent env crash_before crash_after command =
           (if crash_before \<or> crash_after then None
            else Some \<lparr>rep_agentId = agent, rep_commandId = cmd_id command,
                   rep_status = T_COMPLETED,
                   rep_result = HttpGetJson \<lparr>res_status = 0, res_body = BodyNull,
                                  truncated = False, bytesReturned = 0,
                                  res_error = Some message\<rparr>,
                   rep_error = None\<rparr>)"
proof -
  from assms(3) have "executeHttpGetJson env (payload_url (payload command)) = failed_request message"
    by (rule executeHttpGetJson_failure)
  with assms(1,2) have e: "executeCommand env command =
           Returns (HttpGetJson \<lparr>res_status = 0, res_body = BodyNull, truncated = False,
                      bytesReturned = 0, res_error = Some message\<rparr>)"
    by (simp add: executeCommand_def failed_request_def)
  then show ?thesis by (simp add: executeAndReport_def)
qed

theorem http_failure_reported_completed_witness:
  "cmd_type command_http = ''HTTP_GET_JSON''
   \<and> isHttpGetJsonPayload (payload command_http)
   \<and> failure_message (env_fetch env_unreachable (payload_url (payload command_http)))
        = Some ''fetch failed''
   \<and> executeAndReport ''agent-1'' env_unreachable False False command_http =
        Some \<lparr>rep_agentId = ''agent-1'', rep_commandId = ''c2'', rep_status = T_COMPLETED,
               rep_result = HttpGetJson \<lparr>res_status = 0, res_body = BodyNull,
                              truncated = False, bytesReturned = 0,
                              res_error = Some ''fetch failed''\<rparr>,
               rep_error = None\<rparr>"
  using http_failure_reported_completed
          [of command_http env_unreachable "''fetch failed''" "''agent-1''" False False]
  by (simp add: command_http_def env_unreachable_def isHttpGetJsonPayload_def payload_url_def)

lemma not_surrogate_below_0x80: "u < 0x80 \<Longrightarrow> \<not> surrogate_pair u v"
  by (simp add: surrogate_pair_def word_le_nat_alt word_less_nat_alt)

lemma byteLength_single_byte: "list_all (\<lambda>u. u < 0x80) t \<Longrightarrow> byteLength t = length t"
  by (induction t rule: byteLength.induct)
     (simp_all add: unit_bytes_def not_surrogate_below_0x80)

lemma single_byte_take: "list_all (\<lambda>u. u < 0x80) t \<Longrightarrow> list_all (\<lambda>u. u < 0x80) (take n t)"
  by (auto simp: list_all_iff dest: in_set_takeD)

text \<open>
  C10, as the code has it. Of a response whose body was read, \<open>bytesReturned\<close> is the
  UTF-8 byte length of the whole text; when that exceeds \<open>MAX_BODY_SIZE\<close>, \<open>truncated\<close> is
  true, and for a text of single-byte characters the first \<open>MAX_BODY_SIZE\<close> bytes of the
  text are what the body is made from: the value parsed from them when the content type
  contains \<open>application/json\<close> and they parse, and otherwise that prefix followed by the
  marker \<open>... [truncated]\<close>.
\<close>

theorem executeHttpGetJson_truncates:
  assumes "env_fetch env url = Fetched st ct t"
  shows "bytesReturned (executeHttpGetJson env url) = byteLength t
       \<and> (byteLength t > MAX_BODY_SIZE \<longrightarrow>
            truncated (executeHttpGetJson env url)
            \<and> (single_byte t \<longrightarrow>
                 byteLength (take MAX_BODY_SIZE t) = MAX_BODY_SIZE
                 \<and> res_body (executeHttpGetJson env url) =
                     (if includes_of (content_type_of ct) ''application/json''
                      then (case env_parse env (take MAX_BODY_SIZE t) of
                              Some j \<Rightarrow> BodyParsed j
                            | None \<Rightarrow> BodyText (take MAX_BODY_SIZE t @ js ''... [truncated]''))
                      else BodyText (take MAX_BODY_SIZE t @ js ''... [truncated]''))))"
proof -
  have b: "bytesReturned (executeHttpGetJson env url) = byteLength t"
    using assms by (simp add: executeHttpGetJson_def Let_def)
  have tr: "byteLength t > MAX_BODY_SIZE \<Longrightarrow> truncated (executeHttpGetJson env url)"
    using assms by (simp add: executeHttpGetJson_def Let_def)
  have body: "byteLength t > MAX_BODY_SIZE \<Longrightarrow>
      res_body (executeHttpGetJson env url) =
        (if includes_of (content_type_of ct) ''application/json''
         then (case env_parse env (take MAX_BODY_SIZE t) of
                 Some j \<Rightarrow> BodyParsed j
               | None \<Rightarrow> BodyText (take MAX_BODY_SIZE t @ js ''... [truncated]''))
         else BodyText (take MAX_BODY_SIZE t @ js ''... [truncated]''))"
    using assms by (simp add: executeHttpGetJson_def Let_def read_body_def content_type_of_def)
  have len: "byteLength t > MAX_BODY_SIZE \<Longrightarrow> single_byte t \<Longrightarrow>
      byteLength (take MAX_BODY_SIZE t) = MAX_BODY_SIZE"
  proof -
    assume big: "byteLength t > MAX_BODY_SIZE" and sb: "single_byte t"
    then have "length t > MAX_BODY_SIZE"
      by (simp add: single_byte_def byteLength_single_byte)
    moreover from sb have "byteLength (take MAX_BODY_SIZE t) = length (take MAX_BODY_SIZE t)"
      by (simp add: single_byte_def byteLength_single_byte single_byte_take)
    ultimately show ?thesis by simp
  qed
  from b tr body len show ?thesis by blast
qed

lemma single_byte_big_text: "single_byte big_text"
  by (simp add: single_byte_def big_text_def list_all_iff)

lemma byteLength_big_text: "byteLength big_text = 10241"
  using single_byte_big_text by (simp add: single_byte_def byteLength_single_byte big_text_def)

theorem executeHttpGetJson_truncates_witness:
  "env_fetch env_big ''http://example.test/big'' = Fetched 200 (Some ''text/plain'') big_text
   \<and> bytesReturned (executeHttpGetJson env_big ''http://example.test/big'') = 10241
   \<and> truncated (executeHttpGetJson env_big ''http://example.test/big'')
   \<and> byteLength (take MAX_BODY_SIZE big_text) = MAX_BODY_SIZE
   \<and> res_body (executeHttpGetJson env_big ''http://example.test/big'') =
       BodyText (take MAX_BODY_SIZE big_text @ js ''... [truncated]'')"
proof -
  have f: "env_fetch env_big ''http://example.test/big'' =
             Fetched 200 (Some ''text/plain'') big_text"
    by (simp add: env_big_def)
  have i: "\<not> includes_of (content_type_of (Some ''text/plain'')) ''application/json''"
    by (simp add: content_type_of_def)
  from executeHttpGetJson_truncates [OF f] f i single_byte_big_text byteLength_big_text
  show ?thesis by (simp add: MAX_BODY_SIZE_def)
qed

text \<open>
  C10 as stated fails: of 10241 letters \<open>a\<close> of type \<open>text/plain\<close> the body returned is
  not the prefix of 10240 bytes, it is that prefix with the marker appended.
\<close>

theorem executeHttpGetJson_body_is_not_the_prefix:
  "byteLength big_text > MAX_BODY_SIZE
   \<and> byteLength (take MAX_BODY_SIZE big_text) = MAX_BODY_SIZE
   \<and> res_body (executeHttpGetJson env_big ''http://example.test/big'')
       \<noteq> BodyText (take MAX_BODY_SIZE big_text)"
proof -
  have "byteLength (take MAX_BODY_SIZE big_text) = MAX_BODY_SIZE"
    by (simp add: big_text_def MAX_BODY_SIZE_def byteLength_single_byte list_all_iff)
  moreover have "res_body (executeHttpGetJson env_big ''http://example.test/big'') =
      BodyText (take MAX_BODY_SIZE big_text @ js ''... [truncated]'')"
    by (simp add: executeHttpGetJson_def env_big_def byteLength_big_text MAX_BODY_SIZE_def
        read_body_def content_type_of_def Let_def)
  ultimately show ?thesis
    by (simp add: byteLength_big_text MAX_BODY_SIZE_def js_def)
qed

text \<open>
  The cut is made in code units, not in bytes: of 6000 euro signs, 18000 bytes, the
  executor says \<open>truncated\<close> and cuts nothing.
\<close>

lemma byteLength_three_bytes:
  "list_all (\<lambda>u. 0x800 \<le> u \<and> u < 0xD800) t \<Longrightarrow> byteLength t = 3 * length t"
  by (induction t rule: byteLength.induct)
     (simp_all add: unit_bytes_def surrogate_pair_def word_le_nat_alt word_less_nat_alt)

lemma executeHttpGetJson_cuts_code_units:
  "bytesReturned (executeHttpGetJson env_euro ''http://example.test/euro'') = 18000
   \<and> truncated (executeHttpGetJson env_euro ''http://example.test/euro'')
   \<and> res_body (executeHttpGetJson env_euro ''http://example.test/euro'') =
       BodyText (euro_text @ js ''... [truncated]'')"
proof -
  have "byteLength euro_text = 18000"
    by (simp add: euro_text_def byteLength_three_bytes list_all_iff)
  moreover have "take MAX_BODY_SIZE euro_text = euro_text"
    by (simp add: euro_text_def MAX_BODY_SIZE_def)
  ultimately show ?thesis
    by (simp add: executeHttpGetJson_def env_euro_def MAX_BODY_SIZE_def read_body_def
        content_type_of_def Let_def)
qed

end
